theory Spec2Isabelle
  imports Main "HOL-Library.Word"
begin

unbundle bit_operations_syntax

section \<open>The ZIP writer of builtin-zip-tree.c\<close>

text \<open>
  A shallow embedding of \<^verbatim>\<open>builtin-zip-tree.c\<close>: the little-endian packers, the three
  fixed-layout records, the deflate adapter, the entry encoder \<^verbatim>\<open>write_zip_entry\<close> and
  the finalizer \<^verbatim>\<open>write_zip_trailer\<close>.

  Integer types follow the LP64 data model: \<^verbatim>\<open>unsigned int\<close> is a 32-bit word,
  \<^verbatim>\<open>unsigned long\<close> and \<^verbatim>\<open>size_t\<close> are 64-bit words. An \<^verbatim>\<open>int\<close> that only holds
  a small constant or a length (method, result, pathlen, zip_date, zip_time) is an
  \<open>int\<close>; it is converted to a word where the source hands it to an unsigned
  parameter. The lengths of \<^verbatim>\<open>base\<close> and \<^verbatim>\<open>filename\<close> and their sum are taken to fit
  an \<^verbatim>\<open>int\<close>, as lines 122 to 127 need. zlib's \<^verbatim>\<open>uInt\<close> is a 32-bit word: a length
  handed to zlib in one is cut to its low 32 bits. Buffers of the C heap that are handed around together with their length
  (the blob, the path, the deflated stream) are byte lists.

  Outside the model: failure of \<^verbatim>\<open>xmalloc\<close>, \<^verbatim>\<open>xrealloc\<close> and \<^verbatim>\<open>write_or_die\<close> (memory
  and the standard output are taken to be available), and the tree walker, which is
  represented by the sequence of calls it makes.
\<close>

type_synonym byte = "8 word"
type_synonym uint = "32 word"
type_synonym ulong = "64 word"
type_synonym sha1 = "byte list"

subsection \<open>Little-endian packing\<close>

text \<open>\<^verbatim>\<open>copy_le16\<close> and \<^verbatim>\<open>copy_le32\<close> store into \<^verbatim>\<open>dest[0..]\<close>; the model returns the
  bytes stored, in order.\<close>

definition copy_le16 :: "uint \<Rightarrow> byte list" where
  "copy_le16 n = [ucast (0xff AND n), ucast (0xff AND drop_bit 8 n)]"

definition copy_le32 :: "uint \<Rightarrow> byte list" where
  "copy_le32 n = [ucast (0xff AND n), ucast (0xff AND drop_bit 8 n),
                  ucast (0xff AND drop_bit 16 n), ucast (0xff AND drop_bit 24 n)]"

subsection \<open>The three records\<close>

text \<open>Every member of the three structs is an array of \<^verbatim>\<open>unsigned char\<close>, so a struct has
  no padding and its bytes are its members in declaration order: 30, 46 and 22 bytes.\<close>

record zip_local_header =
  h_magic :: "byte list"
  h_version :: "byte list"
  h_flags :: "byte list"
  h_compression_method :: "byte list"
  h_mtime :: "byte list"
  h_mdate :: "byte list"
  h_crc32 :: "byte list"
  h_compressed_size :: "byte list"
  h_size :: "byte list"
  h_filename_length :: "byte list"
  h_extra_length :: "byte list"

record zip_dir_header =
  d_magic :: "byte list"
  d_creator_version :: "byte list"
  d_version :: "byte list"
  d_flags :: "byte list"
  d_compression_method :: "byte list"
  d_mtime :: "byte list"
  d_mdate :: "byte list"
  d_crc32 :: "byte list"
  d_compressed_size :: "byte list"
  d_size :: "byte list"
  d_filename_length :: "byte list"
  d_extra_length :: "byte list"
  d_comment_length :: "byte list"
  d_disk :: "byte list"
  d_attr1 :: "byte list"
  d_attr2 :: "byte list"
  d_offset :: "byte list"

record zip_dir_trailer =
  t_magic :: "byte list"
  t_disk :: "byte list"
  t_directory_start_disk :: "byte list"
  t_entries_on_this_disk :: "byte list"
  t_entries :: "byte list"
  t_size :: "byte list"
  t_offset :: "byte list"
  t_comment_length :: "byte list"

text \<open>The bytes of a struct, as \<^verbatim>\<open>memcpy\<close> and \<^verbatim>\<open>write_or_die\<close> see them.\<close>

definition local_header_bytes :: "zip_local_header \<Rightarrow> byte list" where
  "local_header_bytes h =
     h_magic h @ h_version h @ h_flags h @ h_compression_method h @ h_mtime h @
     h_mdate h @ h_crc32 h @ h_compressed_size h @ h_size h @ h_filename_length h @
     h_extra_length h"

definition dir_header_bytes :: "zip_dir_header \<Rightarrow> byte list" where
  "dir_header_bytes d =
     d_magic d @ d_creator_version d @ d_version d @ d_flags d @
     d_compression_method d @ d_mtime d @ d_mdate d @ d_crc32 d @
     d_compressed_size d @ d_size d @ d_filename_length d @ d_extra_length d @
     d_comment_length d @ d_disk d @ d_attr1 d @ d_attr2 d @ d_offset d"

definition dir_trailer_bytes :: "zip_dir_trailer \<Rightarrow> byte list" where
  "dir_trailer_bytes t =
     t_magic t @ t_disk t @ t_directory_start_disk t @ t_entries_on_this_disk t @
     t_entries t @ t_size t @ t_offset t @ t_comment_length t"

text \<open>The same layouts read back: the struct laid over a run of bytes.\<close>

definition field :: "nat \<Rightarrow> nat \<Rightarrow> byte list \<Rightarrow> byte list" where
  "field off n bs = take n (drop off bs)"

definition read_local_header :: "byte list \<Rightarrow> zip_local_header" where
  "read_local_header bs =
     \<lparr>h_magic = field 0 4 bs, h_version = field 4 2 bs, h_flags = field 6 2 bs,
      h_compression_method = field 8 2 bs, h_mtime = field 10 2 bs,
      h_mdate = field 12 2 bs, h_crc32 = field 14 4 bs,
      h_compressed_size = field 18 4 bs, h_size = field 22 4 bs,
      h_filename_length = field 26 2 bs, h_extra_length = field 28 2 bs\<rparr>"

definition read_dir_header :: "byte list \<Rightarrow> zip_dir_header" where
  "read_dir_header bs =
     \<lparr>d_magic = field 0 4 bs, d_creator_version = field 4 2 bs,
      d_version = field 6 2 bs, d_flags = field 8 2 bs,
      d_compression_method = field 10 2 bs, d_mtime = field 12 2 bs,
      d_mdate = field 14 2 bs, d_crc32 = field 16 4 bs,
      d_compressed_size = field 20 4 bs, d_size = field 24 4 bs,
      d_filename_length = field 28 2 bs, d_extra_length = field 30 2 bs,
      d_comment_length = field 32 2 bs, d_disk = field 34 2 bs,
      d_attr1 = field 36 2 bs, d_attr2 = field 38 4 bs, d_offset = field 42 4 bs\<rparr>"

definition read_dir_trailer :: "byte list \<Rightarrow> zip_dir_trailer" where
  "read_dir_trailer bs =
     \<lparr>t_magic = field 0 4 bs, t_disk = field 4 2 bs,
      t_directory_start_disk = field 6 2 bs, t_entries_on_this_disk = field 8 2 bs,
      t_entries = field 10 2 bs, t_size = field 12 4 bs, t_offset = field 16 4 bs,
      t_comment_length = field 20 2 bs\<rparr>"

text \<open>The number a little-endian field denotes.\<close>

fun le_value :: "byte list \<Rightarrow> nat" where
  "le_value [] = 0"
| "le_value (b # bs) = unat b + 256 * le_value bs"

subsection \<open>Collaborators\<close>

text \<open>
  zlib's \<^verbatim>\<open>crc32(crc, buf, len)\<close>, by its documentation: the running CRC-32 of the
  \<^verbatim>\<open>len\<close> bytes at \<^verbatim>\<open>buf\<close> (polynomial \<^verbatim>\<open>0xedb88320\<close>, the register inverted
  before and after), and
  the required initial value, zero, when \<^verbatim>\<open>buf\<close> is \<^verbatim>\<open>Z_NULL\<close>. \<open>None\<close> is \<^verbatim>\<open>Z_NULL\<close>.
\<close>

definition crc32_bit :: "uint \<Rightarrow> uint" where
  "crc32_bit c = (if bit c 0 then drop_bit 1 c XOR 0xedb88320 else drop_bit 1 c)"

definition crc32_byte :: "byte \<Rightarrow> uint \<Rightarrow> uint" where
  "crc32_byte b c = (crc32_bit ^^ 8) (c XOR ucast b)"

definition crc32 :: "ulong \<Rightarrow> byte list option \<Rightarrow> ulong" where
  "crc32 crc buf =
     (case buf of
        None \<Rightarrow> 0
      | Some bs \<Rightarrow> ucast (fold crc32_byte bs (ucast crc XOR 0xffffffff) XOR (0xffffffff :: uint)))"

text \<open>
  What the file takes from the rest of git and from zlib: the global
  \<^verbatim>\<open>zlib_compression_level\<close>, the object store behind \<^verbatim>\<open>read_sha1_file\<close> (\<open>None\<close> is
  the \<^verbatim>\<open>NULL\<close> it returns for a hash it cannot read), and the compressor:
  \<open>deflate env level bound input\<close> is the zlib stream that \<^verbatim>\<open>deflateInit\<close> at that
  level and the \<^verbatim>\<open>deflate(Z_FINISH)\<close> loop leave in the output buffer when zlib is given
  the bytes \<open>input\<close> (\<^verbatim>\<open>avail_in\<close> of them at \<^verbatim>\<open>next_in\<close>) and an output buffer of
  \<^verbatim>\<open>deflateBound(&stream, bound)\<close> bytes, and the loop ends with \<^verbatim>\<open>Z_STREAM_END\<close>; it is
  \<open>None\<close> when the loop ends with anything else. The loop ends: called again without
  output space, \<^verbatim>\<open>deflate\<close> returns \<^verbatim>\<open>Z_BUF_ERROR\<close>.
\<close>

record env =
  zlib_compression_level :: int
  read_sha1_file :: "sha1 \<Rightarrow> byte list option"
  deflate :: "int \<Rightarrow> ulong \<Rightarrow> byte list \<Rightarrow> byte list option"

text \<open>\<^verbatim>\<open>READ_TREE_RECURSIVE\<close> is defined in tree.h, \<^verbatim>\<open>S_ISDIR\<close> and \<^verbatim>\<open>S_ISREG\<close> in
  sys/stat.h: the file type is the mode under the mask \<^verbatim>\<open>0170000\<close>.\<close>

definition READ_TREE_RECURSIVE :: int where
  "READ_TREE_RECURSIVE = 1"

definition S_ISDIR :: "uint \<Rightarrow> bool" where
  "S_ISDIR m \<longleftrightarrow> m AND 0xf000 = 0x4000"

definition S_ISREG :: "uint \<Rightarrow> bool" where
  "S_ISREG m \<longleftrightarrow> m AND 0xf000 = 0x8000"

text \<open>Modelled from the spec: \<^verbatim>\<open>sha1_to_hex\<close>, declared in cache.h and defined outside
  this file; the 40-character lowercase hex text of a 20-byte digest, two digits per
  byte, high nibble first.\<close>

definition hex_digit :: "nat \<Rightarrow> byte" where
  "hex_digit n = (if n < 10 then of_nat (48 + n) else of_nat (87 + n))"

definition sha1_to_hex :: "sha1 \<Rightarrow> byte list" where
  "sha1_to_hex sha1 =
     concat (map (\<lambda>b. [hex_digit (unat b div 16), hex_digit (unat b mod 16)]) (take 20 sha1))"

subsection \<open>State\<close>

text \<open>
  The file's static variables, the bytes written to file descriptor 1 so far and the
  messages passed to \<^verbatim>\<open>error\<close>. \<open>zip_dir\<close> is the heap block as an indexed memory: a
  read is only meaningful below \<open>zip_dir_size\<close>, and \<^verbatim>\<open>xrealloc\<close> to a larger size keeps
  what is there.
\<close>

datatype message =
  Path_too_long int sha1 "byte list"
| Unsupported_file_mode uint sha1

record zip_state =
  zip_date :: int
  zip_time :: int
  zip_dir :: "nat \<Rightarrow> byte"
  zip_dir_size :: uint
  zip_offset :: uint
  zip_dir_offset :: uint
  zip_dir_entries :: uint
  stdout :: "byte list"
  stderr :: "message list"

definition ZIP_DIRECTORY_MIN_SIZE :: uint where
  "ZIP_DIRECTORY_MIN_SIZE = 1024 * 1024"

definition memcpy :: "(nat \<Rightarrow> byte) \<Rightarrow> nat \<Rightarrow> byte list \<Rightarrow> (nat \<Rightarrow> byte)" where
  "memcpy mem off bs = (\<lambda>i. if off \<le> i \<and> i < off + length bs then bs ! (i - off) else mem i)"

definition write_or_die :: "byte list \<Rightarrow> zip_state \<Rightarrow> zip_state" where
  "write_or_die bs s = s\<lparr>stdout := stdout s @ bs\<rparr>"

definition error :: "message \<Rightarrow> zip_state \<Rightarrow> zip_state" where
  "error m s = s\<lparr>stderr := stderr s @ [m]\<rparr>"

text \<open>How a call ends: it returns a value, or \<^verbatim>\<open>die\<close> ends the process. Either way the
  state is the one reached. A call that never ends has no outcome.\<close>

datatype fatal = Cannot_read sha1

datatype outcome = Returned int zip_state | Died fatal zip_state

subsection \<open>The deflate adapter\<close>

text \<open>\<^verbatim>\<open>zlib_deflate(data, size, &compressed_size)\<close>: the buffer and \<^verbatim>\<open>stream.total_out\<close>,
  or \<open>None\<close> for \<^verbatim>\<open>NULL\<close>, in which case \<^verbatim>\<open>*compressed_size\<close> is not written. Line 100
  stores \<^verbatim>\<open>size\<close> in \<^verbatim>\<open>stream.avail_in\<close>, a \<^verbatim>\<open>uInt\<close>: zlib is given the first
  \<^verbatim>\<open>size\<close> modulo \<open>2^32\<close> bytes of \<^verbatim>\<open>data\<close>.\<close>

definition zlib_deflate :: "env \<Rightarrow> byte list \<Rightarrow> ulong \<Rightarrow> (byte list \<times> ulong) option" where
  "zlib_deflate env data size' =
     (let avail_in = ucast size' :: uint in
      case deflate env (zlib_compression_level env) size' (take (unat avail_in) data) of
        None \<Rightarrow> None
      | Some buffer \<Rightarrow> Some (buffer, of_nat (length buffer)))"

subsection \<open>The entry encoder\<close>

definition construct_path :: "byte list \<Rightarrow> byte list \<Rightarrow> bool \<Rightarrow> byte list \<times> int" where
  "construct_path base filename isdir =
     (let len = int (length base) + int (length filename);
          len = (if isdir then len + 1 else len);
          path = base @ filename @ (if isdir then [0x2f] else [])
      in (path, len))"

text \<open>Lines 207 to 212: the capacity loop. \<open>need\<close> is
  \<^verbatim>\<open>zip_dir_offset + direntsize\<close>, an \<^verbatim>\<open>unsigned long\<close>; the comparison is made at that
  type, the increment wraps at 32 bits.\<close>

partial_function (option) grow_zip_dir :: "uint \<Rightarrow> ulong \<Rightarrow> uint option" where
  "grow_zip_dir dir_size need =
     (if ucast dir_size < need
      then grow_zip_dir (dir_size + ZIP_DIRECTORY_MIN_SIZE) need
      else Some dir_size)"

declare grow_zip_dir.simps [code]

text \<open>Lines 194 to 205: the choice between deflate and store. The result is the
  method, the bytes at \<^verbatim>\<open>out\<close> and \<^verbatim>\<open>compressed_size\<close>.\<close>

definition choose_method ::
  "env \<Rightarrow> int \<Rightarrow> byte list \<Rightarrow> ulong \<Rightarrow> byte list \<Rightarrow> ulong \<Rightarrow> int \<times> byte list \<times> ulong" where
  "choose_method env method buffer size' out compressed_size =
     (if method = 8 then
        (case zlib_deflate env buffer size' of
           None \<Rightarrow> (0, out, size')
         | Some (deflated, csize) \<Rightarrow>
             if csize - 6 < size' then (8, drop 2 deflated, csize - 6)
             else (0, out, size'))
      else (method, out, compressed_size))"

text \<open>The local variables an entry is encoded from, as lines 172 to 205 leave them.\<close>

record entry_vars =
  v_method :: int
  v_result :: int
  v_crc :: ulong
  v_compressed_size :: ulong
  v_uncompressed_size :: ulong
  v_out :: "byte list"

datatype prepared = Encode entry_vars | Skip message | Fatal fatal

text \<open>Lines 172 to 205: a directory has no content; a regular file is read, summed and
  perhaps deflated (\<^verbatim>\<open>size\<close> is the length \<^verbatim>\<open>read_sha1_file\<close> reports for the buffer it
  returns); any other mode is reported. \<open>crc\<close> is the value of \<^verbatim>\<open>crc\<close> on entry. At
  line 184 \<^verbatim>\<open>size\<close> is the \<^verbatim>\<open>uInt len\<close> argument of \<^verbatim>\<open>crc32\<close>: the first \<^verbatim>\<open>size\<close>
  modulo \<open>2^32\<close> bytes of the buffer are summed.\<close>

definition prepare_entry :: "env \<Rightarrow> sha1 \<Rightarrow> uint \<Rightarrow> ulong \<Rightarrow> prepared" where
  "prepare_entry env sha1 mode crc =
     (if S_ISDIR mode then
        Encode \<lparr>v_method = 0, v_result = READ_TREE_RECURSIVE, v_crc = crc,
                v_compressed_size = 0, v_uncompressed_size = 0, v_out = []\<rparr>
      else if S_ISREG mode then
        (case read_sha1_file env sha1 of
           None \<Rightarrow> Fatal (Cannot_read sha1)
         | Some buffer \<Rightarrow>
            (let size' = of_nat (length buffer) :: ulong;
                 method = (if zlib_compression_level env = 0 then 0 else 8);
                 len = ucast size' :: uint;
                 crc = crc32 crc (Some (take (unat len) buffer));
                 (method, out, compressed_size) =
                    choose_method env method buffer size' buffer size'
             in Encode \<lparr>v_method = method, v_result = 0, v_crc = crc,
                        v_compressed_size = compressed_size, v_uncompressed_size = size',
                        v_out = out\<rparr>))
      else Skip (Unsupported_file_mode mode sha1))"

text \<open>Lines 214 to 230: the members of \<^verbatim>\<open>dirent\<close>. An \<^verbatim>\<open>int\<close> or \<^verbatim>\<open>unsigned long\<close>
  argument is converted to the \<^verbatim>\<open>unsigned int\<close> parameter of the packer.\<close>

definition fill_dirent :: "zip_state \<Rightarrow> entry_vars \<Rightarrow> int \<Rightarrow> zip_dir_header" where
  "fill_dirent s v pathlen =
     \<lparr>d_magic = copy_le32 0x02014b50,
      d_creator_version = copy_le16 0,
      d_version = copy_le16 20,
      d_flags = copy_le16 0,
      d_compression_method = copy_le16 (of_int (v_method v)),
      d_mtime = copy_le16 (of_int (zip_time s)),
      d_mdate = copy_le16 (of_int (zip_date s)),
      d_crc32 = copy_le32 (ucast (v_crc v)),
      d_compressed_size = copy_le32 (ucast (v_compressed_size v)),
      d_size = copy_le32 (ucast (v_uncompressed_size v)),
      d_filename_length = copy_le16 (of_int pathlen),
      d_extra_length = copy_le16 0,
      d_comment_length = copy_le16 0,
      d_disk = copy_le16 0,
      d_attr1 = copy_le16 0,
      d_attr2 = copy_le32 0,
      d_offset = copy_le32 (zip_offset s)\<rparr>"

text \<open>Lines 237 to 247: the members of \<^verbatim>\<open>header\<close>.\<close>

definition fill_header :: "zip_state \<Rightarrow> entry_vars \<Rightarrow> int \<Rightarrow> zip_local_header" where
  "fill_header s v pathlen =
     \<lparr>h_magic = copy_le32 0x04034b50,
      h_version = copy_le16 20,
      h_flags = copy_le16 0,
      h_compression_method = copy_le16 (of_int (v_method v)),
      h_mtime = copy_le16 (of_int (zip_time s)),
      h_mdate = copy_le16 (of_int (zip_date s)),
      h_crc32 = copy_le32 (ucast (v_crc v)),
      h_compressed_size = copy_le32 (ucast (v_compressed_size v)),
      h_size = copy_le32 (ucast (v_uncompressed_size v)),
      h_filename_length = copy_le16 (of_int pathlen),
      h_extra_length = copy_le16 0\<rparr>"

text \<open>Lines 207 to 255, the part every encoded entry goes through: the capacity loop,
  the directory record and the path copied to \<open>zip_dir\<close> at \<open>zip_dir_offset\<close>, then
  the local header, the path and, if \<^verbatim>\<open>compressed_size > 0\<close>, that many bytes at
  \<^verbatim>\<open>out\<close> written to the output. The two \<^verbatim>\<open>sizeof\<close> are 46 and 30.\<close>

definition emit_entry :: "byte list \<Rightarrow> int \<Rightarrow> entry_vars \<Rightarrow> zip_state \<Rightarrow> outcome option" where
  "emit_entry path pathlen v s =
     (let direntsize = 46 + of_int pathlen :: ulong in
      case grow_zip_dir (zip_dir_size s) (ucast (zip_dir_offset s) + direntsize) of
        None \<Rightarrow> None
      | Some dir_size \<Rightarrow>
         (let s = s\<lparr>zip_dir_size := dir_size\<rparr>;
              dirent = fill_dirent s v pathlen;
              s = s\<lparr>zip_dir := memcpy (zip_dir s) (unat (zip_dir_offset s))
                                  (dir_header_bytes dirent)\<rparr>;
              s = s\<lparr>zip_dir_offset := zip_dir_offset s + 46\<rparr>;
              s = s\<lparr>zip_dir := memcpy (zip_dir s) (unat (zip_dir_offset s))
                                  (take (nat pathlen) path)\<rparr>;
              s = s\<lparr>zip_dir_offset := zip_dir_offset s + of_int pathlen\<rparr>;
              s = s\<lparr>zip_dir_entries := zip_dir_entries s + 1\<rparr>;
              header = fill_header s v pathlen;
              s = write_or_die (local_header_bytes header) s;
              s = s\<lparr>zip_offset := zip_offset s + 30\<rparr>;
              s = write_or_die (take (nat pathlen) path) s;
              s = s\<lparr>zip_offset := zip_offset s + of_int pathlen\<rparr>;
              s = (if v_compressed_size v > 0
                   then (write_or_die (take (unat (v_compressed_size v)) (v_out v)) s)
                          \<lparr>zip_offset := zip_offset s + ucast (v_compressed_size v)\<rparr>
                   else s)
          in Some (Returned (v_result v) s)))"

text \<open>\<^verbatim>\<open>write_zip_entry(sha1, base, baselen, filename, mode, stage)\<close>. \<open>base\<close> is the
  \<^verbatim>\<open>baselen\<close> bytes at \<^verbatim>\<open>base\<close>, \<open>filename\<close> the bytes of the C string; \<^verbatim>\<open>stage\<close> is not
  used. Both early exits return \<^verbatim>\<open>result\<close> as initialised, \<open>- 1\<close>.\<close>

definition write_zip_entry ::
  "env \<Rightarrow> sha1 \<Rightarrow> byte list \<Rightarrow> byte list \<Rightarrow> uint \<Rightarrow> zip_state \<Rightarrow> outcome option" where
  "write_zip_entry env sha1 base filename mode s =
     (let crc = crc32 0 None;
          (path, pathlen) = construct_path base filename (S_ISDIR mode)
      in if pathlen > 0xffff then
           Some (Returned (- 1) (error (Path_too_long pathlen sha1 path) s))
         else
           (case prepare_entry env sha1 mode crc of
              Skip m \<Rightarrow> Some (Returned (- 1) (error m s))
            | Fatal f \<Rightarrow> Some (Died f s)
            | Encode v \<Rightarrow> emit_entry path pathlen v s))"

subsection \<open>The finalizer\<close>

definition write_zip_trailer :: "sha1 option \<Rightarrow> zip_state \<Rightarrow> zip_state" where
  "write_zip_trailer sha1 s =
     (let trailer = \<lparr>t_magic = copy_le32 0x06054b50,
                     t_disk = copy_le16 0,
                     t_directory_start_disk = copy_le16 0,
                     t_entries_on_this_disk = copy_le16 (zip_dir_entries s),
                     t_entries = copy_le16 (zip_dir_entries s),
                     t_size = copy_le32 (zip_dir_offset s),
                     t_offset = copy_le32 (zip_offset s),
                     t_comment_length = copy_le16 (if sha1 \<noteq> None then 40 else 0)\<rparr>;
          s = write_or_die (map (zip_dir s) [0 ..< unat (zip_dir_offset s)]) s;
          s = write_or_die (dir_trailer_bytes trailer) s
      in case sha1 of
           None \<Rightarrow> s
         | Some h \<Rightarrow> write_or_die (take 40 (sha1_to_hex h)) s)"

subsection \<open>A build\<close>

text \<open>
  Modelled from the spec: the tree walker, \<^verbatim>\<open>read_tree_recursive\<close> of tree.c, which is not
  in this file. It enumerates the nodes depth first and calls \<^verbatim>\<open>write_zip_entry\<close> once
  per node, each call on the state the previous one left; after a skipped entry the
  traversal proceeds, and \<^verbatim>\<open>die\<close> ends the build. A build is the sequence of these
  calls; the return values are kept in call order.
\<close>

record tree_entry =
  e_sha1 :: sha1
  e_base :: "byte list"
  e_filename :: "byte list"
  e_mode :: uint

datatype run = Finished "int list" zip_state | Aborted fatal zip_state

fun add_result :: "int \<Rightarrow> run \<Rightarrow> run" where
  "add_result r (Finished rs s) = Finished (r # rs) s"
| "add_result r (Aborted f s) = Aborted f s"

fun write_zip_entries :: "env \<Rightarrow> tree_entry list \<Rightarrow> zip_state \<Rightarrow> run option" where
  "write_zip_entries env [] s = Some (Finished [] s)"
| "write_zip_entries env (e # es) s =
     (case write_zip_entry env (e_sha1 e) (e_base e) (e_filename e) (e_mode e) s of
        None \<Rightarrow> None
      | Some (Died f s') \<Rightarrow> Some (Aborted f s')
      | Some (Returned r s') \<Rightarrow> map_option (add_result r) (write_zip_entries env es s'))"

text \<open>\<^verbatim>\<open>cmd_zip_tree\<close>, lines 330 to 347: the statics start at zero, the date and time
  are set once, \<open>zip_dir\<close> is a fresh block of \<^verbatim>\<open>ZIP_DIRECTORY_MIN_SIZE\<close> bytes with
  whatever \<open>heap\<close> holds, the entries are encoded and the trailer is written. The call
  of line 341 for a prefix directory, when there is one, is the first entry of \<open>es\<close>;
  \<open>commit\<close> is the hash handed to \<^verbatim>\<open>write_zip_trailer\<close>, \<open>None\<close> for \<^verbatim>\<open>NULL\<close>.\<close>

definition zip_init :: "int \<Rightarrow> int \<Rightarrow> (nat \<Rightarrow> byte) \<Rightarrow> zip_state" where
  "zip_init date time heap =
     \<lparr>zip_date = date, zip_time = time, zip_dir = heap,
      zip_dir_size = ZIP_DIRECTORY_MIN_SIZE, zip_offset = 0, zip_dir_offset = 0,
      zip_dir_entries = 0, stdout = [], stderr = []\<rparr>"

definition zip_tree ::
  "env \<Rightarrow> int \<Rightarrow> int \<Rightarrow> (nat \<Rightarrow> byte) \<Rightarrow> tree_entry list \<Rightarrow> sha1 option \<Rightarrow> run option" where
  "zip_tree env date time heap es commit =
     (case write_zip_entries env es (zip_init date time heap) of
        None \<Rightarrow> None
      | Some (Aborted f s) \<Rightarrow> Some (Aborted f s)
      | Some (Finished rs s) \<Rightarrow> Some (Finished rs (write_zip_trailer commit s)))"

subsection \<open>Reading the result\<close>

text \<open>What a call added to the output, and what it added to the central directory.\<close>

definition emitted :: "zip_state \<Rightarrow> zip_state \<Rightarrow> byte list" where
  "emitted s s' = drop (length (stdout s)) (stdout s')"

definition dir_appended :: "zip_state \<Rightarrow> zip_state \<Rightarrow> byte list" where
  "dir_appended s s' = map (zip_dir s') [unat (zip_dir_offset s) ..< unat (zip_dir_offset s')]"

text \<open>The path of an entry, as \<^verbatim>\<open>construct_path\<close> builds it.\<close>

definition entry_path :: "byte list \<Rightarrow> byte list \<Rightarrow> uint \<Rightarrow> byte list" where
  "entry_path base filename mode = fst (construct_path base filename (S_ISDIR mode))"

text \<open>The local variables of an entry that is encoded (all zero for one that is not).\<close>

definition entry_fields :: "env \<Rightarrow> sha1 \<Rightarrow> uint \<Rightarrow> entry_vars" where
  "entry_fields env sha1 mode =
     (case prepare_entry env sha1 mode (crc32 0 None) of
        Encode v \<Rightarrow> v
      | _ \<Rightarrow> \<lparr>v_method = 0, v_result = 0, v_crc = 0, v_compressed_size = 0,
               v_uncompressed_size = 0, v_out = []\<rparr>)"

text \<open>The payload of an entry: what follows the local header and the path.\<close>

definition payload :: "byte list \<Rightarrow> byte list \<Rightarrow> uint \<Rightarrow> zip_state \<Rightarrow> zip_state \<Rightarrow> byte list" where
  "payload base filename mode s s' =
     drop (30 + length (entry_path base filename mode)) (emitted s s')"

text \<open>What zlib sees of a buffer whose length reaches it through a \<^verbatim>\<open>uInt\<close>.\<close>

definition uInt_prefix :: "byte list \<Rightarrow> byte list" where
  "uInt_prefix buffer = take (length buffer mod 2 ^ 32) buffer"

text \<open>How many entries of a build were encoded: every return value but \<open>- 1\<close>.\<close>

definition encoded_count :: "int list \<Rightarrow> nat" where
  "encoded_count rs = length (filter (\<lambda>r. r \<noteq> - 1) rs)"

text \<open>What zlib guarantees about a finished stream: it has its two header bytes and its
  four checksum bytes, and its length is a value of \<^verbatim>\<open>total_out\<close>.\<close>

definition zlib_framed :: "env \<Rightarrow> bool" where
  "zlib_framed env \<longleftrightarrow>
     (\<forall>level bound input z.
        deflate env level bound input = Some z \<longrightarrow> 6 \<le> length z \<and> length z < 2 ^ 64)"

subsection \<open>Sample inputs\<close>

text \<open>Three small blobs under their git hashes, with the streams zlib produces for them
  at level 6; a two-byte blob the sample compressor fails on, as it does on any other
  input; and three blobs of \<open>2^32\<close> bytes or more. The sample store knows these
  hashes and no other.\<close>

definition sample_hello :: "byte list" where
  "sample_hello = [0x68, 0x65, 0x6c, 0x6c, 0x6f]"

definition sample_a12 :: "byte list" where
  "sample_a12 = [0x61, 0x61, 0x61, 0x61, 0x61, 0x61, 0x61, 0x61, 0x61, 0x61, 0x61, 0x61]"

definition sample_big :: "byte list" where
  "sample_big = replicate 4294967296 0"

definition sample_bin :: "byte list" where
  "sample_bin = [0x00, 0xff]"

definition sample_ff_big :: "byte list" where
  "sample_ff_big = [0xff, 0xff, 0xff, 0xff] @ replicate 4294967292 0"

definition sample_hello_big :: "byte list" where
  "sample_hello_big = sample_hello @ replicate 4294967296 0"

definition sha1_hello :: sha1 where
  "sha1_hello = [0xb6, 0xfc, 0x4c, 0x62, 0x0b, 0x67, 0xd9, 0x5f, 0x95, 0x3a,
                 0x5c, 0x1c, 0x12, 0x30, 0xaa, 0xab, 0x5d, 0xb5, 0xa1, 0xb0]"

definition sha1_empty :: sha1 where
  "sha1_empty = [0xe6, 0x9d, 0xe2, 0x9b, 0xb2, 0xd1, 0xd6, 0x43, 0x4b, 0x8b,
                 0x29, 0xae, 0x77, 0x5a, 0xd8, 0xc2, 0xe4, 0x8c, 0x53, 0x91]"

definition sha1_a12 :: sha1 where
  "sha1_a12 = [0x54, 0xae, 0x48, 0x85, 0x54, 0x23, 0x1d, 0x8f, 0xe0, 0xf9,
               0x08, 0x36, 0xb0, 0x9b, 0x6c, 0x89, 0x84, 0x5a, 0xd8, 0x7c]"

definition sha1_big :: sha1 where
  "sha1_big = [0x01, 0x02, 0x03, 0x04, 0x05, 0x06, 0x07, 0x08, 0x09, 0x0a,
               0x0b, 0x0c, 0x0d, 0x0e, 0x0f, 0x10, 0x11, 0x12, 0x13, 0x14]"

definition sha1_bin :: sha1 where
  "sha1_bin = [0x21, 0x22, 0x23, 0x24, 0x25, 0x26, 0x27, 0x28, 0x29, 0x2a,
               0x2b, 0x2c, 0x2d, 0x2e, 0x2f, 0x30, 0x31, 0x32, 0x33, 0x34]"

definition sha1_ff_big :: sha1 where
  "sha1_ff_big = [0x41, 0x42, 0x43, 0x44, 0x45, 0x46, 0x47, 0x48, 0x49, 0x4a,
                  0x4b, 0x4c, 0x4d, 0x4e, 0x4f, 0x50, 0x51, 0x52, 0x53, 0x54]"

definition sha1_hello_big :: sha1 where
  "sha1_hello_big = [0x61, 0x62, 0x63, 0x64, 0x65, 0x66, 0x67, 0x68, 0x69, 0x6a,
                     0x6b, 0x6c, 0x6d, 0x6e, 0x6f, 0x70, 0x71, 0x72, 0x73, 0x74]"

definition sha1_commit :: sha1 where
  "sha1_commit = [0x40, 0x15, 0xb5, 0x7a, 0x14, 0x3a, 0xec, 0x51, 0x56, 0xfd,
                  0x14, 0x44, 0xa0, 0x17, 0xa3, 0x21, 0x37, 0xa3, 0xfd, 0x0f]"

definition sample_store :: "sha1 \<Rightarrow> byte list option" where
  "sample_store h =
     (if h = sha1_hello then Some sample_hello
      else if h = sha1_empty then Some []
      else if h = sha1_a12 then Some sample_a12
      else if h = sha1_big then Some sample_big
      else if h = sha1_bin then Some sample_bin
      else if h = sha1_ff_big then Some sample_ff_big
      else if h = sha1_hello_big then Some sample_hello_big
      else None)"

definition sample_deflate :: "int \<Rightarrow> ulong \<Rightarrow> byte list \<Rightarrow> byte list option" where
  "sample_deflate level bound data =
     (if data = sample_hello then
        Some [0x78, 0x9c, 0xcb, 0x48, 0xcd, 0xc9, 0xc9, 0x07, 0x00, 0x06, 0x2c, 0x02, 0x15]
      else if data = [] then
        Some [0x78, 0x9c, 0x03, 0x00, 0x00, 0x00, 0x00, 0x01]
      else if data = sample_a12 then
        Some [0x78, 0x9c, 0x4b, 0x4c, 0x44, 0x00, 0x00, 0x1d, 0x9a, 0x04, 0x8d]
      else None)"

definition sample_env :: "int \<Rightarrow> env" where
  "sample_env level =
     \<lparr>zlib_compression_level = level, read_sha1_file = sample_store,
      deflate = sample_deflate\<rparr>"

text \<open>A compressor that is not zlib: whatever it is given, it leaves three bytes.\<close>

definition short_deflate :: "int \<Rightarrow> ulong \<Rightarrow> byte list \<Rightarrow> byte list option" where
  "short_deflate level bound data = Some [0x78, 0x9c, 0x03]"

definition short_env :: "int \<Rightarrow> env" where
  "short_env level =
     \<lparr>zlib_compression_level = level, read_sha1_file = sample_store,
      deflate = short_deflate\<rparr>"

definition sample_dir :: tree_entry where
  "sample_dir = \<lparr>e_sha1 = sha1_commit, e_base = [], e_filename = [0x64], e_mode = 0x41ff\<rparr>"

definition sample_file :: tree_entry where
  "sample_file = \<lparr>e_sha1 = sha1_hello, e_base = [0x64, 0x2f], e_filename = [0x66], e_mode = 0x81a4\<rparr>"

definition sample_big_file :: tree_entry where
  "sample_big_file = \<lparr>e_sha1 = sha1_big, e_base = [], e_filename = [0x62], e_mode = 0x81a4\<rparr>"

text \<open>Entries that are not encoded: a symbolic link (mode \<^verbatim>\<open>0120777\<close>), a regular file
  whose hash the sample store does not know, and a file whose path has 65536 bytes; and
  one whose path has 65535 bytes.\<close>

definition sha1_missing :: sha1 where
  "sha1_missing = [0x81, 0x82, 0x83, 0x84, 0x85, 0x86, 0x87, 0x88, 0x89, 0x8a,
                   0x8b, 0x8c, 0x8d, 0x8e, 0x8f, 0x90, 0x91, 0x92, 0x93, 0x94]"

definition sample_link :: tree_entry where
  "sample_link = \<lparr>e_sha1 = sha1_hello, e_base = [0x64, 0x2f], e_filename = [0x6c], e_mode = 0xa1ff\<rparr>"

definition sample_missing :: tree_entry where
  "sample_missing = \<lparr>e_sha1 = sha1_missing, e_base = [0x64, 0x2f], e_filename = [0x6d], e_mode = 0x81a4\<rparr>"

definition sample_too_long :: tree_entry where
  "sample_too_long = \<lparr>e_sha1 = sha1_hello, e_base = [], e_filename = replicate 65536 0x61,
                       e_mode = 0x81a4\<rparr>"

definition sample_longest :: tree_entry where
  "sample_longest = \<lparr>e_sha1 = sha1_hello, e_base = [], e_filename = replicate 65535 0x61,
                      e_mode = 0x81a4\<rparr>"

text \<open>A tree of \<open>n\<close> directories, named by four hex digits each.\<close>

definition sample_name :: "nat \<Rightarrow> byte list" where
  "sample_name i = [hex_digit (i div 4096 mod 16), hex_digit (i div 256 mod 16),
                    hex_digit (i div 16 mod 16), hex_digit (i mod 16)]"

definition sample_tree :: "nat \<Rightarrow> tree_entry list" where
  "sample_tree n =
     map (\<lambda>i. \<lparr>e_sha1 = sha1_commit, e_base = [], e_filename = sample_name i, e_mode = 0x41ff\<rparr>)
       [0 ..< n]"

text \<open>A fresh state: date 2006-09-07 (\<open>13607\<close>), time 12:00:00 (\<open>24576\<close>).\<close>

definition sample_init :: zip_state where
  "sample_init = zip_init 13607 24576 (\<lambda>i. 0)"

section \<open>Properties\<close>

subsection \<open>Packing and layout\<close>

lemma length_copy_le16 [simp]: "length (copy_le16 n) = 2"
  by (simp add: copy_le16_def)

lemma length_copy_le32 [simp]: "length (copy_le32 n) = 4"
  by (simp add: copy_le32_def)

lemma unat_byte_of:
  "unat (ucast (0xff AND drop_bit k n) :: byte) = (unat n div 2 ^ k) mod 256" for n :: uint
proof -
  have m: "(255 :: nat) = mask 8" by (simp add: mask_eq_exp_minus_1)
  have "unat (0xff AND drop_bit k n) = drop_bit k (unat n) AND 255"
    by (simp add: unsigned_and_eq unat_drop_bit_eq and.commute)
  also have "\<dots> = take_bit 8 (drop_bit k (unat n))"
    unfolding m by (simp add: take_bit_eq_mask)
  finally show ?thesis
    by (simp add: unsigned_ucast_eq take_bit_eq_mod drop_bit_eq_div)
qed

lemma split_low_byte: "x mod 256 + 256 * (x div 256) = x" for x :: nat
  by simp

text \<open>A 32-bit field holds its argument exactly; a 16-bit field holds it modulo \<open>2^16\<close>.\<close>

lemma le_value_copy_le32: "le_value (copy_le32 n) = unat n"
proof -
  define x where "x = unat n"
  have "x < 2 ^ 32" unfolding x_def using unsigned_less [of n] by simp
  then have top: "x div 16777216 mod 256 = x div 16777216" by simp
  have d2: "x div 65536 = x div 256 div 256" and d3: "x div 16777216 = x div 256 div 256 div 256"
    by (simp_all add: div_mult2_eq [symmetric])
  have "le_value (copy_le32 n) =
      x mod 256 + 256 * (x div 256 mod 256 + 256 * (x div 65536 mod 256 + 256 * (x div 16777216 mod 256)))"
    unfolding copy_le32_def x_def
    using unat_byte_of [of 0 n] unat_byte_of [of 8 n] unat_byte_of [of 16 n] unat_byte_of [of 24 n]
    by simp
  also have "\<dots> = x"
    unfolding top unfolding d2 d3 by (simp only: split_low_byte)
  finally show ?thesis by (simp add: x_def)
qed

lemma le_value_copy_le16: "le_value (copy_le16 n) = unat n mod 65536"
proof -
  define x where "x = unat n"
  have "le_value (copy_le16 n) = x mod 256 + 256 * (x div 256 mod 256)"
    unfolding copy_le16_def x_def
    using unat_byte_of [of 0 n] unat_byte_of [of 8 n]
    by simp
  also have "\<dots> = x mod 65536"
  proof -
    have "x mod 65536 = x mod (256 * 256)" by simp
    also have "\<dots> = x mod 256 + 256 * (x div 256 mod 256)"
      by (simp only: mod_mult2_eq)
    finally show ?thesis by simp
  qed
  finally show ?thesis by (simp add: x_def)
qed

lemma copy_le32_inj: "copy_le32 a = copy_le32 b \<Longrightarrow> a = b"
  using le_value_copy_le32 [of a] le_value_copy_le32 [of b] by (simp add: word_unat_eq_iff)

lemma length_dirent [simp]:
  "length (dir_header_bytes (fill_dirent s v pl)) = 46"
  by (simp add: dir_header_bytes_def fill_dirent_def)

lemma length_header [simp]:
  "length (local_header_bytes (fill_header s v pl)) = 30"
  by (simp add: local_header_bytes_def fill_header_def)

lemma read_fill_header:
  "read_local_header (local_header_bytes (fill_header s v pl) @ rest) = fill_header s v pl"
  by (simp add: read_local_header_def local_header_bytes_def fill_header_def field_def)

lemma read_fill_dirent:
  "read_dir_header (dir_header_bytes (fill_dirent s v pl) @ rest) = fill_dirent s v pl"
  by (simp add: read_dir_header_def dir_header_bytes_def fill_dirent_def field_def)

subsection \<open>The directory buffer\<close>

lemma memcpy_map_same: "map (memcpy mem off bs) [off ..< off + length bs] = bs"
  by (rule nth_equalityI) (simp_all add: memcpy_def)

lemma memcpy_map_below: "b \<le> off \<Longrightarrow> map (memcpy mem off bs) [a ..< b] = map mem [a ..< b]"
  by (auto simp: memcpy_def)

lemma memcpy_map_append:
  "map (memcpy (memcpy mem off bs) (off + length bs) cs) [off ..< off + length bs + length cs] =
   bs @ cs"
proof -
  have "[off ..< off + length bs + length cs] =
        [off ..< off + length bs] @ [off + length bs ..< off + length bs + length cs]"
    by (rule upt_add_eq_append) simp
  then show ?thesis
    by (simp add: memcpy_map_same memcpy_map_below)
qed

lemma unat_ucast_uint_ulong: "unat (ucast (x :: uint) :: ulong) = unat x"
proof -
  have "unat x < 2 ^ 32" using unsigned_less [of x] by simp
  then have "unat x < 2 ^ 64" by simp
  then show ?thesis by (simp add: unsigned_ucast_eq take_bit_nat_eq_self)
qed

lemma unat_of_int_pathlen_ulong:
  "0 \<le> pathlen \<Longrightarrow> pathlen \<le> 0xffff \<Longrightarrow> unat (of_int pathlen :: ulong) = nat pathlen"
  by (simp add: unsigned_of_int take_bit_int_eq_self nat_take_bit_eq take_bit_nat_eq_self)

lemma unat_of_int_pathlen_uint:
  "0 \<le> pathlen \<Longrightarrow> pathlen \<le> 0xffff \<Longrightarrow> unat (of_int pathlen :: uint) = nat pathlen"
  by (simp add: unsigned_of_int take_bit_int_eq_self nat_take_bit_eq take_bit_nat_eq_self)

lemma unat_need:
  assumes "0 \<le> pathlen" "pathlen \<le> 0xffff"
  shows "unat (ucast (off :: uint) + (46 + of_int pathlen) :: ulong) = unat off + 46 + nat pathlen"
proof -
  have o: "unat off < 2 ^ 32" using unsigned_less [of off] by simp
  have "unat (46 + of_int pathlen :: ulong) = 46 + nat pathlen"
    using assms by (simp add: unat_word_ariths unat_of_int_pathlen_ulong)
  then show ?thesis
    using assms o by (simp add: unat_word_ariths unat_ucast_uint_ulong)
qed

text \<open>When the capacity loop ends, the record fits below the new size, so the 32-bit
  cursor does not wrap.\<close>

lemma grow_zip_dir_post:
  assumes "grow_zip_dir sz need = Some sz'" shows "need \<le> ucast sz'"
  by (rule grow_zip_dir.raw_induct [where P = "\<lambda>a b y. b \<le> ucast y", OF _ assms])
     (auto split: if_splits)

lemma grow_zip_dir_room:
  assumes g: "grow_zip_dir sz (ucast (off :: uint) + (46 + of_int pathlen)) = Some sz'"
    and p: "0 \<le> pathlen" "pathlen \<le> 0xffff"
  shows "unat off + 46 + nat pathlen \<le> unat sz'"
  using grow_zip_dir_post [OF g] unat_need [OF p, of off]
  by (simp add: word_le_nat_alt unat_ucast_uint_ulong)

lemma unat_advance:
  assumes "unat off + 46 + nat pathlen \<le> unat (sz :: uint)" and p: "0 \<le> pathlen" "pathlen \<le> 0xffff"
  shows "unat (off + 46 :: uint) = unat off + 46"
    and "unat (off + 46 + of_int pathlen :: uint) = unat off + 46 + nat pathlen"
proof -
  have s: "unat sz < 2 ^ 32" using unsigned_less [of sz] by simp
  show a: "unat (off + 46 :: uint) = unat off + 46"
    using assms s by (simp add: unat_word_ariths)
  show "unat (off + 46 + of_int pathlen :: uint) = unat off + 46 + nat pathlen"
    using assms s a by (simp add: unat_word_ariths(1) [of "off + 46"] unat_of_int_pathlen_uint)
qed

subsection \<open>The entry encoder, case by case\<close>

lemma emit_entry_Some:
  assumes e: "emit_entry path pathlen v s = Some oc"
    and p: "0 \<le> pathlen" "pathlen \<le> 0xffff" and l: "length path = nat pathlen"
  shows "\<exists>s' dir_size. oc = Returned (v_result v) s' \<and>
     grow_zip_dir (zip_dir_size s) (ucast (zip_dir_offset s) + (46 + of_int pathlen)) = Some dir_size \<and>
     unat (zip_dir_offset s) + 46 + length path \<le> unat dir_size \<and>
     zip_date s' = zip_date s \<and> zip_time s' = zip_time s \<and>
     zip_dir_size s' = dir_size \<and>
     zip_dir s' = memcpy (memcpy (zip_dir s) (unat (zip_dir_offset s))
                     (dir_header_bytes (fill_dirent s v pathlen)))
                   (unat (zip_dir_offset s) + 46) path \<and>
     zip_dir_offset s' = zip_dir_offset s + 46 + of_int pathlen \<and>
     unat (zip_dir_offset s') = unat (zip_dir_offset s) + 46 + length path \<and>
     zip_dir_entries s' = zip_dir_entries s + 1 \<and>
     stdout s' = stdout s @ local_header_bytes (fill_header s v pathlen) @
                   path @ take (unat (v_compressed_size v)) (v_out v) \<and>
     zip_offset s' = zip_offset s + 30 + of_int pathlen + ucast (v_compressed_size v) \<and>
     stderr s' = stderr s"
proof -
  from e obtain dir_size where
    g: "grow_zip_dir (zip_dir_size s) (ucast (zip_dir_offset s) + (46 + of_int pathlen)) = Some dir_size"
    by (auto simp: emit_entry_def Let_def split: option.splits)
  note room = grow_zip_dir_room [OF g p]
  note adv = unat_advance [OF room p]
  have fd: "\<And>x. fill_dirent (s\<lparr>zip_dir_size := x\<rparr>) = fill_dirent s"
    by (intro ext) (simp add: fill_dirent_def)
  have z: "v_compressed_size v = 0 \<Longrightarrow>
      take (unat (v_compressed_size v)) (v_out v) = [] \<and> (ucast (v_compressed_size v) :: uint) = 0"
    by simp
  show ?thesis
    using e g room adv l z
    by (cases "v_compressed_size v = 0")
       (auto simp: emit_entry_def Let_def write_or_die_def fd fill_header_def fill_dirent_def
          word_neq_0_conv cong: if_cong)
qed

lemma construct_path_eq:
  "construct_path base filename isdir =
     (base @ filename @ (if isdir then [0x2f] else []),
      int (length (base @ filename @ (if isdir then [0x2f] else []))))"
  by (simp add: construct_path_def Let_def)

lemma construct_path_entry:
  "construct_path base filename (S_ISDIR mode) =
     (entry_path base filename mode, int (length (entry_path base filename mode)))"
  by (simp add: entry_path_def construct_path_eq)

lemma crc32_Z_NULL [simp]: "crc32 0 None = 0"
  by (simp add: crc32_def)

lemma write_zip_entry_unfold:
  "write_zip_entry env sha1 base filename mode s =
     (if 0xffff < int (length (entry_path base filename mode)) then
        Some (Returned (- 1) (error (Path_too_long (int (length (entry_path base filename mode)))
                sha1 (entry_path base filename mode)) s))
      else
        (case prepare_entry env sha1 mode 0 of
           Skip m \<Rightarrow> Some (Returned (- 1) (error m s))
         | Fatal f \<Rightarrow> Some (Died f s)
         | Encode v \<Rightarrow>
             emit_entry (entry_path base filename mode)
               (int (length (entry_path base filename mode))) v s))"
  by (simp add: write_zip_entry_def construct_path_entry Let_def)

lemma prepare_entry_result:
  "prepare_entry env sha1 mode crc = Encode v \<Longrightarrow>
     v_result v = (if S_ISDIR mode then READ_TREE_RECURSIVE else 0)"
  by (auto simp: prepare_entry_def Let_def split: if_splits option.splits prod.splits)

lemma write_zip_entry_encoded:
  assumes w: "write_zip_entry env sha1 base filename mode s = Some (Returned r s')"
    and r: "r \<noteq> - 1"
  shows "length (entry_path base filename mode) \<le> 65535"
    and "prepare_entry env sha1 mode 0 = Encode (entry_fields env sha1 mode)"
    and "emit_entry (entry_path base filename mode) (int (length (entry_path base filename mode)))
           (entry_fields env sha1 mode) s = Some (Returned r s')"
    and "r = (if S_ISDIR mode then READ_TREE_RECURSIVE else 0)"
proof -
  let ?path = "entry_path base filename mode"
  note w' = w [unfolded write_zip_entry_unfold]
  show len: "length ?path \<le> 65535"
    using w' r by (auto split: if_splits)
  from w' r len obtain v where v: "prepare_entry env sha1 mode 0 = Encode v"
    by (cases "prepare_entry env sha1 mode 0") auto
  then have f: "entry_fields env sha1 mode = v"
    by (simp add: entry_fields_def)
  show "prepare_entry env sha1 mode 0 = Encode (entry_fields env sha1 mode)"
    using v f by simp
  show e: "emit_entry ?path (int (length ?path)) (entry_fields env sha1 mode) s =
      Some (Returned r s')"
    using w' len v f by simp
  then have "r = v_result v"
    using f by (auto simp: emit_entry_def Let_def split: option.splits)
  then show "r = (if S_ISDIR mode then READ_TREE_RECURSIVE else 0)"
    using prepare_entry_result [OF v] by simp
qed

text \<open>What an encoded entry leaves behind: the bytes added to the output and to the
  directory, and the cursors.\<close>

lemma write_zip_entry_effect:
  assumes w: "write_zip_entry env sha1 base filename mode s = Some (Returned r s')"
    and r: "r \<noteq> - 1"
  shows "emitted s s' =
       local_header_bytes (fill_header s (entry_fields env sha1 mode)
           (int (length (entry_path base filename mode)))) @
       entry_path base filename mode @
       take (unat (v_compressed_size (entry_fields env sha1 mode)))
         (v_out (entry_fields env sha1 mode))"
    and "dir_appended s s' =
       dir_header_bytes (fill_dirent s (entry_fields env sha1 mode)
           (int (length (entry_path base filename mode)))) @
       entry_path base filename mode"
    and "stdout s' = stdout s @ emitted s s'"
    and "unat (zip_dir_offset s') =
       unat (zip_dir_offset s) + 46 + length (entry_path base filename mode)"
    and "map (zip_dir s') [0 ..< unat (zip_dir_offset s)] =
       map (zip_dir s) [0 ..< unat (zip_dir_offset s)]"
    and "zip_dir_entries s' = zip_dir_entries s + 1"
    and "zip_offset s' = zip_offset s + 30 + of_nat (length (entry_path base filename mode)) +
       ucast (v_compressed_size (entry_fields env sha1 mode))"
    and "unat (zip_dir_offset s') \<le> unat (zip_dir_size s')"
    and "stderr s' = stderr s" and "zip_date s' = zip_date s" and "zip_time s' = zip_time s"
proof -
  let ?path = "entry_path base filename mode"
  let ?v = "entry_fields env sha1 mode"
  note enc = write_zip_entry_encoded [OF w r]
  from enc(1) have p: "0 \<le> int (length ?path)" "int (length ?path) \<le> 0xffff" by simp_all
  from emit_entry_Some [OF enc(3) p] obtain dir_size where
    room: "unat (zip_dir_offset s) + 46 + length ?path \<le> unat dir_size"
    and sz: "zip_dir_size s' = dir_size"
    and zd: "zip_dir s' = memcpy (memcpy (zip_dir s) (unat (zip_dir_offset s))
                     (dir_header_bytes (fill_dirent s ?v (int (length ?path)))))
                   (unat (zip_dir_offset s) + 46) ?path"
    and off: "unat (zip_dir_offset s') = unat (zip_dir_offset s) + 46 + length ?path"
    and ent: "zip_dir_entries s' = zip_dir_entries s + 1"
    and out: "stdout s' = stdout s @
        local_header_bytes (fill_header s ?v (int (length ?path))) @
        ?path @ take (unat (v_compressed_size ?v)) (v_out ?v)"
    and zo: "zip_offset s' = zip_offset s + 30 + of_int (int (length ?path)) +
        ucast (v_compressed_size ?v)"
    and rest: "stderr s' = stderr s" "zip_date s' = zip_date s" "zip_time s' = zip_time s"
    by auto
  show em: "emitted s s' =
       local_header_bytes (fill_header s ?v (int (length ?path))) @
       ?path @ take (unat (v_compressed_size ?v)) (v_out ?v)"
    by (simp add: emitted_def out)
  show "dir_appended s s' = dir_header_bytes (fill_dirent s ?v (int (length ?path))) @ ?path"
    unfolding dir_appended_def off zd
    using memcpy_map_append [of "zip_dir s" "unat (zip_dir_offset s)"
        "dir_header_bytes (fill_dirent s ?v (int (length ?path)))" ?path]
    by simp
  show "map (zip_dir s') [0 ..< unat (zip_dir_offset s)] =
      map (zip_dir s) [0 ..< unat (zip_dir_offset s)]"
    unfolding zd by (simp add: memcpy_map_below)
  show "stdout s' = stdout s @ emitted s s'"
    by (simp add: em out)
  show "zip_offset s' = zip_offset s + 30 + of_nat (length ?path) + ucast (v_compressed_size ?v)"
    using zo by simp
  show "unat (zip_dir_offset s') \<le> unat (zip_dir_size s')"
    using room off sz by simp
  show "unat (zip_dir_offset s') = unat (zip_dir_offset s) + 46 + length ?path"
    by (fact off)
  show "zip_dir_entries s' = zip_dir_entries s + 1" by (fact ent)
  show "stderr s' = stderr s" "zip_date s' = zip_date s" "zip_time s' = zip_time s"
    by (fact rest)+
qed

text \<open>The capacity loop ends whenever the directory stays below \<open>2^32 - 2^20\<close> bytes,
  and then a directory or a readable regular file with a path of at most 65535 bytes is
  encoded.\<close>

lemma grow_zip_dir_terminates:
  assumes "unat need \<le> 2 ^ 32 - 2 ^ 20"
  shows "\<exists>sz'. grow_zip_dir sz need = Some sz'"
  using assms
proof (induction "unat need - unat sz" arbitrary: sz rule: less_induct)
  case less
  show ?case
  proof (cases "ucast sz < need")
    case False
    then show ?thesis by (subst grow_zip_dir.simps) simp
  next
    case True
    then have lt: "unat sz < unat need"
      by (simp add: word_less_nat_alt unat_ucast_uint_ulong)
    with less.prems have nowrap: "unat (sz + ZIP_DIRECTORY_MIN_SIZE) = unat sz + 2 ^ 20"
      by (simp add: unat_word_ariths ZIP_DIRECTORY_MIN_SIZE_def)
    with lt have "unat need - unat (sz + ZIP_DIRECTORY_MIN_SIZE) < unat need - unat sz"
      by simp
    from less.hyps [OF this less.prems]
    obtain sz' where "grow_zip_dir (sz + ZIP_DIRECTORY_MIN_SIZE) need = Some sz'" by blast
    with True show ?thesis by (subst grow_zip_dir.simps) simp
  qed
qed

lemma emit_entry_returns:
  assumes p: "0 \<le> pathlen" "pathlen \<le> 0xffff"
    and c: "unat (zip_dir_offset s) + 46 + nat pathlen \<le> 2 ^ 32 - 2 ^ 20"
  shows "\<exists>s'. emit_entry path pathlen v s = Some (Returned (v_result v) s')"
proof -
  have "unat (ucast (zip_dir_offset s) + (46 + of_int pathlen) :: ulong) \<le> 2 ^ 32 - 2 ^ 20"
    using c by (simp add: unat_need [OF p])
  from grow_zip_dir_terminates [OF this, of "zip_dir_size s"]
  obtain sz' where
    "grow_zip_dir (zip_dir_size s) (ucast (zip_dir_offset s) + (46 + of_int pathlen)) = Some sz'"
    by blast
  then show ?thesis
    by (simp add: emit_entry_def Let_def)
qed

lemma write_zip_entry_returns:
  assumes len: "length (entry_path base filename mode) \<le> 65535"
    and ty: "S_ISDIR mode \<or> S_ISREG mode \<and> read_sha1_file env sha1 \<noteq> None"
    and c: "unat (zip_dir_offset s) + 46 + length (entry_path base filename mode) \<le> 2 ^ 32 - 2 ^ 20"
  shows "\<exists>s'. write_zip_entry env sha1 base filename mode s =
            Some (Returned (if S_ISDIR mode then READ_TREE_RECURSIVE else 0) s')"
proof -
  let ?path = "entry_path base filename mode"
  have p: "0 \<le> int (length ?path)" "int (length ?path) \<le> 0xffff" using len by simp_all
  have c': "unat (zip_dir_offset s) + 46 + nat (int (length ?path)) \<le> 2 ^ 32 - 2 ^ 20"
    using c by simp
  have "\<exists>v. prepare_entry env sha1 mode 0 = Encode v"
    using ty by (cases "S_ISDIR mode") (auto simp: prepare_entry_def Let_def split: prod.splits)
  then obtain v where v: "prepare_entry env sha1 mode 0 = Encode v" by blast
  from emit_entry_returns [OF p c', of ?path v] show ?thesis
    using len v prepare_entry_result [OF v] by (simp add: write_zip_entry_unfold)
qed

subsection \<open>The variables of an entry\<close>

lemma entry_fields_dir:
  "S_ISDIR mode \<Longrightarrow> entry_fields env sha1 mode =
     \<lparr>v_method = 0, v_result = READ_TREE_RECURSIVE, v_crc = 0, v_compressed_size = 0,
      v_uncompressed_size = 0, v_out = []\<rparr>"
  by (simp add: entry_fields_def prepare_entry_def)

lemma unat_uInt_of_length: "unat (ucast (of_nat n :: ulong) :: uint) = n mod 2 ^ 32"
proof -
  have "n mod 2 ^ 64 mod 2 ^ 32 = n mod 2 ^ 32"
    by (rule mod_mod_cancel) simp
  then show ?thesis
    by (simp add: unsigned_ucast_eq unat_of_nat take_bit_eq_mod)
qed

lemma take_uInt: "take (unat (ucast (of_nat (length buffer) :: ulong) :: uint)) buffer =
    uInt_prefix buffer"
  by (simp only: unat_uInt_of_length uInt_prefix_def)

lemma uInt_prefix_small: "length buffer < 2 ^ 32 \<Longrightarrow> uInt_prefix buffer = buffer"
  by (simp add: uInt_prefix_def)

lemma entry_fields_reg:
  assumes "\<not> S_ISDIR mode" "S_ISREG mode" "read_sha1_file env sha1 = Some buffer"
  shows "v_result (entry_fields env sha1 mode) = 0"
    and "v_crc (entry_fields env sha1 mode) = crc32 0 (Some (uInt_prefix buffer))"
    and "v_uncompressed_size (entry_fields env sha1 mode) = of_nat (length buffer)"
    and "(v_method (entry_fields env sha1 mode), v_out (entry_fields env sha1 mode),
          v_compressed_size (entry_fields env sha1 mode)) =
         choose_method env (if zlib_compression_level env = 0 then 0 else 8)
           buffer (of_nat (length buffer)) buffer (of_nat (length buffer))"
  using assms
  by (simp_all add: entry_fields_def prepare_entry_def Let_def take_uInt split: prod.splits)

lemma prepare_entry_Encode_reg:
  assumes "prepare_entry env sha1 mode crc = Encode v" "\<not> S_ISDIR mode"
  shows "S_ISREG mode" and "read_sha1_file env sha1 \<noteq> None"
  using assms by (auto simp: prepare_entry_def split: if_splits option.splits)

lemma unat_crc32_field: "unat (ucast (crc32 c buf) :: uint) = unat (crc32 c buf)"
proof (cases buf)
  case None
  then show ?thesis by (simp add: crc32_def)
next
  case (Some bs)
  define x where "x = fold crc32_byte bs (ucast c XOR 0xffffffff) XOR (0xffffffff :: uint)"
  have "unat x < 2 ^ 32" using unsigned_less [of x] by simp
  then have "take_bit 32 (unat x) = unat x" by (simp add: take_bit_nat_eq_self)
  then show ?thesis
    using Some by (simp add: crc32_def unsigned_ucast_eq [where 'c = 32] unat_ucast_uint_ulong flip: x_def)
qed

lemma crc32_empty: "crc32 0 (Some []) = 0"
  by (simp add: crc32_def)

lemma crc32_byte_unfold:
  "crc32_byte b c =
     crc32_bit (crc32_bit (crc32_bit (crc32_bit (crc32_bit (crc32_bit (crc32_bit (crc32_bit
       (c XOR ucast b))))))))"
  by (simp add: crc32_byte_def eval_nat_numeral)

text \<open>The check value of the model: the CRC-32 of \<^verbatim>\<open>hello\<close>.\<close>

lemma crc32_sample_hello: "crc32 0 (Some sample_hello) = 0x3610a686"
  by (simp add: sample_hello_def crc32_def crc32_byte_unfold crc32_bit_def)

lemma S_ISDIR_not_S_ISREG: "S_ISDIR m \<Longrightarrow> \<not> S_ISREG m"
  by (simp add: S_ISDIR_def S_ISREG_def)

lemma write_zip_entry_skipped:
  assumes "write_zip_entry env sha1 base filename mode s = Some (Returned (- 1) s')"
  shows "s' = (if 65535 < length (entry_path base filename mode)
               then error (Path_too_long (int (length (entry_path base filename mode))) sha1
                      (entry_path base filename mode)) s
               else error (Unsupported_file_mode mode sha1) s)"
    and "65535 < length (entry_path base filename mode) \<or> \<not> S_ISDIR mode \<and> \<not> S_ISREG mode"
proof -
  note w = assms [unfolded write_zip_entry_unfold]
  have enc: "prepare_entry env sha1 mode 0 = Encode v \<Longrightarrow>
      emit_entry p l v s = Some (Returned (- 1) s') \<Longrightarrow> False" for v p l
    using prepare_entry_result [of env sha1 mode 0 v]
    by (auto simp: emit_entry_def Let_def READ_TREE_RECURSIVE_def split: option.splits if_splits)
  show "s' = (if 65535 < length (entry_path base filename mode)
               then error (Path_too_long (int (length (entry_path base filename mode))) sha1
                      (entry_path base filename mode)) s
               else error (Unsupported_file_mode mode sha1) s)"
    using w enc
    by (cases "prepare_entry env sha1 mode 0")
       (auto simp: prepare_entry_def Let_def split: if_splits option.splits prod.splits)
  show "65535 < length (entry_path base filename mode) \<or> \<not> S_ISDIR mode \<and> \<not> S_ISREG mode"
    using w enc
    by (cases "prepare_entry env sha1 mode 0")
       (auto simp: prepare_entry_def Let_def split: if_splits option.splits prod.splits)
qed

lemma write_zip_entry_died:
  assumes "write_zip_entry env sha1 base filename mode s = Some (Died f s')"
  shows "s' = s" and "f = Cannot_read sha1" and "S_ISREG mode" and "\<not> S_ISDIR mode"
    and "read_sha1_file env sha1 = None" and "length (entry_path base filename mode) \<le> 65535"
proof -
  note w = assms [unfolded write_zip_entry_unfold]
  have enc: "emit_entry p l v s \<noteq> Some (Died f s')" for v p l
    by (auto simp: emit_entry_def Let_def split: option.splits)
  have "s' = s \<and> f = Cannot_read sha1 \<and> S_ISREG mode \<and> \<not> S_ISDIR mode \<and>
     read_sha1_file env sha1 = None \<and> length (entry_path base filename mode) \<le> 65535"
    using w enc
    by (cases "prepare_entry env sha1 mode 0")
       (auto simp: prepare_entry_def Let_def split: if_splits option.splits prod.splits)
  then show "s' = s" and "f = Cannot_read sha1" and "S_ISREG mode" and "\<not> S_ISDIR mode"
    and "read_sha1_file env sha1 = None" and "length (entry_path base filename mode) \<le> 65535"
    by simp_all
qed

lemma unat_of_nat_ulong_le: "unat (of_nat n :: ulong) \<le> n"
  by (simp add: unat_of_nat)

lemma unat_of_nat_ulong: "n < 2 ^ 64 \<Longrightarrow> unat (of_nat n :: ulong) = n"
  by (simp add: unat_of_nat)

lemma unat_stripped:
  assumes "6 \<le> n" "n < 2 ^ 64"
  shows "unat (of_nat n - 6 :: ulong) = n - 6"
proof -
  have "(of_nat (n - 6) :: ulong) = of_nat n - of_nat 6"
    using assms(1) by (rule of_nat_diff)
  then have e: "(of_nat n - 6 :: ulong) = of_nat (n - 6)" by simp
  have "n - 6 < 2 ^ 64" using assms by simp
  then show ?thesis unfolding e by (simp add: unat_of_nat)
qed

lemma choose_method_eq:
  "choose_method env method buffer sz out csize =
     (if method = 8 then
        (case deflate env (zlib_compression_level env) sz
                (take (unat (ucast sz :: uint)) buffer) of
           None \<Rightarrow> (0, out, sz)
         | Some z \<Rightarrow>
             if of_nat (length z) - 6 < sz then (8, drop 2 z, of_nat (length z) - 6)
             else (0, out, sz))
      else (method, out, csize))"
  by (simp add: choose_method_def zlib_deflate_def Let_def split: option.split)

lemma choose_method_out_length:
  assumes f: "zlib_framed env"
    and c: "choose_method env method buffer sz out csize = (method', out', csize')"
    and o: "unat csize \<le> length out" "unat sz \<le> length out"
  shows "unat csize' \<le> length out'"
proof (cases "method = 8")
  case False
  with c o show ?thesis by (simp add: choose_method_eq)
next
  case True
  show ?thesis
  proof (cases "deflate env (zlib_compression_level env) sz
      (take (unat (ucast sz :: uint)) buffer)")
    case None
    with c o True show ?thesis by (auto simp: choose_method_eq)
  next
    case (Some z)
    with f have "6 \<le> length z" "length z < 2 ^ 64" by (auto simp: zlib_framed_def)
    then have "unat (of_nat (length z) - 6 :: ulong) \<le> length (drop 2 z)"
      by (simp add: unat_stripped)
    with c o True Some show ?thesis
      by (auto simp: choose_method_eq split: if_splits)
  qed
qed

lemma entry_fields_out_length:
  assumes "zlib_framed env"
  shows "unat (v_compressed_size (entry_fields env sha1 mode)) \<le>
         length (v_out (entry_fields env sha1 mode))"
proof (cases "prepare_entry env sha1 mode (crc32 0 None)")
  case (Encode v)
  show ?thesis
  proof (cases "S_ISDIR mode")
    case True
    then show ?thesis by (simp add: entry_fields_dir)
  next
    case False
    with Encode obtain buffer where b: "S_ISREG mode" "read_sha1_file env sha1 = Some buffer"
      using prepare_entry_Encode_reg [of env sha1 mode "crc32 0 None" v] by auto
    note fr = entry_fields_reg [OF False b]
    show ?thesis
      by (rule choose_method_out_length [OF assms fr(4) [symmetric]])
         (simp_all add: unat_of_nat_ulong_le)
  qed
qed (simp_all add: entry_fields_def)

lemma entry_fields_payload_length:
  assumes "zlib_framed env"
  shows "length (take (unat (v_compressed_size (entry_fields env sha1 mode)))
                  (v_out (entry_fields env sha1 mode))) =
         unat (v_compressed_size (entry_fields env sha1 mode))"
  using entry_fields_out_length [OF assms, of sha1 mode] by simp

lemma payload_eq:
  assumes "write_zip_entry env sha1 base filename mode s = Some (Returned r s')"
    and "r \<noteq> - 1"
  shows "payload base filename mode s s' =
     take (unat (v_compressed_size (entry_fields env sha1 mode)))
       (v_out (entry_fields env sha1 mode))"
  unfolding payload_def write_zip_entry_effect(1) [OF assms] by simp

lemma read_emitted:
  assumes "write_zip_entry env sha1 base filename mode s = Some (Returned r s')"
    and "r \<noteq> - 1"
  shows "read_local_header (emitted s s') =
     fill_header s (entry_fields env sha1 mode) (int (length (entry_path base filename mode)))"
    and "read_dir_header (dir_appended s s') =
     fill_dirent s (entry_fields env sha1 mode) (int (length (entry_path base filename mode)))"
    and "emitted s s' = local_header_bytes (read_local_header (emitted s s')) @
           entry_path base filename mode @ payload base filename mode s s'"
    and "dir_appended s s' = dir_header_bytes (read_dir_header (dir_appended s s')) @
           entry_path base filename mode"
proof -
  note eff = write_zip_entry_effect [OF assms]
  show h: "read_local_header (emitted s s') =
     fill_header s (entry_fields env sha1 mode) (int (length (entry_path base filename mode)))"
    unfolding eff(1) by (rule read_fill_header)
  show d: "read_dir_header (dir_appended s s') =
     fill_dirent s (entry_fields env sha1 mode) (int (length (entry_path base filename mode)))"
    unfolding eff(2) by (rule read_fill_dirent)
  show "emitted s s' = local_header_bytes (read_local_header (emitted s s')) @
           entry_path base filename mode @ payload base filename mode s s'"
    unfolding h payload_eq [OF assms] by (rule eff(1))
  show "dir_appended s s' = dir_header_bytes (read_dir_header (dir_appended s s')) @
           entry_path base filename mode"
    unfolding d by (rule eff(2))
qed

lemma le_value_ucast_ulong: "le_value (copy_le32 (ucast (x :: ulong))) = unat x mod 2 ^ 32"
  by (simp add: le_value_copy_le32 unsigned_ucast_eq take_bit_eq_mod)

lemma entry_path_dir: "S_ISDIR mode \<Longrightarrow> entry_path base filename mode = base @ filename @ [0x2f]"
  by (simp add: entry_path_def construct_path_eq)

lemma entry_path_file: "\<not> S_ISDIR mode \<Longrightarrow> entry_path base filename mode = base @ filename"
  by (simp add: entry_path_def construct_path_eq)

lemma sample_env_framed: "zlib_framed (sample_env level)"
  by (auto simp: zlib_framed_def sample_env_def sample_deflate_def split: if_splits)

lemma length_sample_big: "length sample_big = 4294967296"
  by (simp add: sample_big_def)

lemma sample_modes:
  "S_ISDIR 0x41ff" "\<not> S_ISREG 0x41ff" "\<not> S_ISDIR 0x81a4" "S_ISREG 0x81a4"
  "\<not> S_ISDIR 0xa1ff" "\<not> S_ISREG 0xa1ff"
  by (simp_all add: S_ISDIR_def S_ISREG_def)

lemma sample_store_simps:
  "sample_store sha1_hello = Some sample_hello"
  "sample_store sha1_empty = Some []"
  "sample_store sha1_a12 = Some sample_a12"
  "sample_store sha1_big = Some sample_big"
  "sample_store sha1_bin = Some sample_bin"
  "sample_store sha1_ff_big = Some sample_ff_big"
  "sample_store sha1_hello_big = Some sample_hello_big"
  "sample_store sha1_commit = None"
  by (simp_all add: sample_store_def sha1_hello_def sha1_empty_def sha1_a12_def sha1_big_def
        sha1_bin_def sha1_ff_big_def sha1_hello_big_def sha1_commit_def)

lemma sample_env_simps [simp]:
  "zlib_compression_level (sample_env level) = level"
  "read_sha1_file (sample_env level) = sample_store"
  "deflate (sample_env level) = sample_deflate"
  by (simp_all add: sample_env_def)

lemma sample_init_simps [simp]:
  "zip_dir_offset sample_init = 0" "zip_offset sample_init = 0" "zip_dir_entries sample_init = 0"
  "stdout sample_init = []" "stderr sample_init = []"
  "zip_dir_size sample_init = ZIP_DIRECTORY_MIN_SIZE"
  "zip_date sample_init = 13607" "zip_time sample_init = 24576"
  by (simp_all add: sample_init_def zip_init_def)

lemma sample_big_fields:
  "v_compressed_size (entry_fields (sample_env 0) sha1_big 0x81a4) = 4294967296"
  "v_out (entry_fields (sample_env 0) sha1_big 0x81a4) = sample_big"
  "v_method (entry_fields (sample_env 0) sha1_big 0x81a4) = 0"
  using entry_fields_reg(4) [of "0x81a4" "sample_env 0" sha1_big sample_big]
  by (simp_all add: sample_modes sample_store_simps choose_method_eq length_sample_big)

lemma entry_fields_level:
  assumes "\<not> S_ISDIR mode" "S_ISREG mode" "read_sha1_file env sha1 = Some buffer"
    and "zlib_compression_level env \<noteq> 0"
  shows "(v_method (entry_fields env sha1 mode), v_out (entry_fields env sha1 mode),
          v_compressed_size (entry_fields env sha1 mode)) =
         (case deflate env (zlib_compression_level env) (of_nat (length buffer))
                 (uInt_prefix buffer) of
            None \<Rightarrow> (0, buffer, of_nat (length buffer))
          | Some z \<Rightarrow>
              if (of_nat (length z) - 6 :: ulong) < of_nat (length buffer)
              then (8, drop 2 z, of_nat (length z) - 6)
              else (0, buffer, of_nat (length buffer)))"
  using entry_fields_reg(4) [OF assms(1-3)] assms(4)
  by (simp add: choose_method_eq take_uInt)

lemma stored_payload:
  "take (unat (of_nat (length buffer) :: ulong)) buffer = buffer" if "length buffer < 2 ^ 64"
  using that by (simp add: unat_of_nat_ulong)

lemma unat_short_stream:
  assumes "n < 6"
  shows "unat (of_nat n - 6 :: ulong) = 2 ^ 64 - 6 + n"
proof -
  have "unat (of_nat n :: ulong) = n" using assms by (simp add: unat_of_nat_ulong)
  moreover have "unat (6 :: ulong) = 6" by simp
  ultimately show ?thesis
    using assms by (simp add: unat_sub_if_size word_size)
qed

lemma strip_framing:
  assumes "6 \<le> length z"
  shows "take 2 z @ take (length z - 6) (drop 2 z) @ drop (length z - 4) z = z"
proof -
  have "length z - 6 + 2 = length z - 4" using assms by simp
  then have "drop (length z - 4) z = drop (length z - 6) (drop 2 z)"
    by (simp only: drop_drop)
  then show ?thesis by (simp only: append_take_drop_id)
qed

lemma sample_a12_stream:
  "sample_deflate level bound sample_a12 =
     Some [0x78, 0x9c, 0x4b, 0x4c, 0x44, 0x00, 0x00, 0x1d, 0x9a, 0x04, 0x8d]"
  by (simp add: sample_deflate_def sample_a12_def sample_hello_def)

lemma sample_hello_stream:
  "sample_deflate level bound sample_hello =
     Some [0x78, 0x9c, 0xcb, 0x48, 0xcd, 0xc9, 0xc9, 0x07, 0x00, 0x06, 0x2c, 0x02, 0x15]"
  by (simp add: sample_deflate_def)

lemma sample_empty_stream:
  "sample_deflate level bound [] = Some [0x78, 0x9c, 0x03, 0x00, 0x00, 0x00, 0x00, 0x01]"
  by (simp add: sample_deflate_def sample_hello_def)

lemma crc32_byte_zero: "crc32_byte 0 0 = 0"
  by (simp add: crc32_byte_unfold crc32_bit_def)

lemma fold_crc32_zeros: "fold crc32_byte (replicate n 0) 0 = 0"
  by (induction n) (simp_all add: crc32_byte_zero)

lemma crc32_sample_ff_big: "crc32 0 (Some sample_ff_big) = 0xffffffff"
proof -
  have "fold crc32_byte [0xff, 0xff, 0xff, 0xff] 0xffffffff = 0"
    by (simp add: crc32_byte_unfold crc32_bit_def)
  then show ?thesis
    by (simp add: crc32_def sample_ff_big_def fold_crc32_zeros del: fold_replicate)
qed

lemma length_sample_ff_big: "length sample_ff_big = 4294967296"
  by (simp add: sample_ff_big_def)

lemma uInt_prefix_sample_ff_big: "uInt_prefix sample_ff_big = []"
  by (simp add: uInt_prefix_def length_sample_ff_big)

lemma length_sample_hello_big: "length sample_hello_big = 4294967301"
  by (simp add: sample_hello_big_def sample_hello_def)

lemma uInt_prefix_sample_hello_big: "uInt_prefix sample_hello_big = sample_hello"
proof -
  have "take 5 sample_hello_big = sample_hello"
    by (simp add: sample_hello_big_def sample_hello_def)
  then show ?thesis
    by (simp add: uInt_prefix_def length_sample_hello_big)
qed

lemma uInt_prefix_sample_big: "uInt_prefix sample_big = []"
  by (simp add: uInt_prefix_def length_sample_big)



lemma zlib_deflate_eq:
  "zlib_deflate env buffer (of_nat (length buffer)) =
     map_option (\<lambda>z. (z, of_nat (length z)))
       (deflate env (zlib_compression_level env) (of_nat (length buffer)) (uInt_prefix buffer))"
  by (simp add: zlib_deflate_def Let_def take_uInt split: option.split)

lemma entry_fields_adapter:
  assumes "\<not> S_ISDIR mode" "S_ISREG mode" "read_sha1_file env sha1 = Some buffer"
    and "zlib_compression_level env \<noteq> 0"
  shows "(v_method (entry_fields env sha1 mode), v_out (entry_fields env sha1 mode),
          v_compressed_size (entry_fields env sha1 mode)) =
         (case zlib_deflate env buffer (of_nat (length buffer)) of
            None \<Rightarrow> (0, buffer, of_nat (length buffer))
          | Some (z, csize) \<Rightarrow>
              if csize - 6 < of_nat (length buffer)
              then (8, drop 2 z, csize - 6)
              else (0, buffer, of_nat (length buffer)))"
  using entry_fields_reg(4) [OF assms(1-3)] assms(4)
  by (simp add: choose_method_def)

lemma short_env_simps [simp]:
  "zlib_compression_level (short_env level) = level"
  "read_sha1_file (short_env level) = sample_store"
  "deflate (short_env level) = short_deflate"
  by (simp_all add: short_env_def)



lemma write_zip_entries_Cons_Finished:
  assumes "write_zip_entries env (e # es) s = Some (Finished rs s'')"
  obtains r s' rs' where
    "write_zip_entry env (e_sha1 e) (e_base e) (e_filename e) (e_mode e) s = Some (Returned r s')"
    "write_zip_entries env es s' = Some (Finished rs' s'')"
    "rs = r # rs'"
proof -
  from assms obtain r s' where
    w: "write_zip_entry env (e_sha1 e) (e_base e) (e_filename e) (e_mode e) s = Some (Returned r s')"
    and m: "map_option (add_result r) (write_zip_entries env es s') = Some (Finished rs s'')"
    by (auto split: option.splits outcome.splits)
  from m obtain x where x: "write_zip_entries env es s' = Some x" "add_result r x = Finished rs s''"
    by auto
  then obtain rs' where "x = Finished rs' s''" "rs = r # rs'"
    by (cases x) auto
  with w x that show thesis by blast
qed

text \<open>An invariant of the encoder is an invariant of a build.\<close>

lemma write_zip_entries_invariant:
  assumes run: "write_zip_entries env es s = Some (Finished rs s')"
    and step: "\<And>sha1 base filename mode s r s'.
       write_zip_entry env sha1 base filename mode s = Some (Returned r s')
       \<Longrightarrow> I s \<Longrightarrow> I s'"
    and init: "I s"
  shows "I s'"
  using run init
proof (induction es arbitrary: s rs)
  case Nil
  then show ?case by simp
next
  case (Cons e es)
  from Cons.prems(1) obtain r s1 rs' where
    w: "write_zip_entry env (e_sha1 e) (e_base e) (e_filename e) (e_mode e) s = Some (Returned r s1)"
    and rest: "write_zip_entries env es s1 = Some (Finished rs' s')"
    by (rule write_zip_entries_Cons_Finished)
  from step [OF w Cons.prems(2)] have "I s1" .
  with Cons.IH [OF rest] show ?case .
qed

text \<open>The same with counts of the encoded and of the skipped entries.\<close>

lemma encoded_count_Cons:
  "encoded_count (r # rs) = (if r = - 1 then encoded_count rs else Suc (encoded_count rs))"
  by (simp add: encoded_count_def)

lemma encoded_count_le: "encoded_count rs \<le> length rs"
  by (simp add: encoded_count_def)

lemma write_zip_entries_counting:
  assumes run: "write_zip_entries env es s = Some (Finished rs s')"
    and step: "\<And>sha1 base filename mode s r s' a b.
       write_zip_entry env sha1 base filename mode s = Some (Returned r s')
       \<Longrightarrow> I a b s \<Longrightarrow> I (if r = - 1 then a else Suc a) (if r = - 1 then Suc b else b) s'"
    and init: "I a b s"
  shows "I (a + encoded_count rs) (b + (length rs - encoded_count rs)) s'"
  using run init
proof (induction es arbitrary: s rs a b)
  case Nil
  then show ?case by (simp add: encoded_count_def)
next
  case (Cons e es)
  from Cons.prems(1) obtain r s1 rs' where
    w: "write_zip_entry env (e_sha1 e) (e_base e) (e_filename e) (e_mode e) s = Some (Returned r s1)"
    and rest: "write_zip_entries env es s1 = Some (Finished rs' s')"
    and rs: "rs = r # rs'"
    by (rule write_zip_entries_Cons_Finished)
  from step [OF w Cons.prems(2)]
  have "I (if r = - 1 then a else Suc a) (if r = - 1 then Suc b else b) s1" .
  from Cons.IH [OF rest this] show ?case
    using encoded_count_le [of rs']
    by (cases "r = - 1") (simp_all add: rs encoded_count_Cons Suc_diff_le)
qed

lemma error_simps [simp]:
  "stdout (error m s) = stdout s" "zip_offset (error m s) = zip_offset s"
  "zip_dir_offset (error m s) = zip_dir_offset s" "zip_dir_entries (error m s) = zip_dir_entries s"
  "zip_dir (error m s) = zip_dir s" "zip_dir_size (error m s) = zip_dir_size s"
  "zip_date (error m s) = zip_date s" "zip_time (error m s) = zip_time s"
  "stderr (error m s) = stderr s @ [m]"
  by (simp_all add: error_def)

lemma write_zip_entry_skipped_fields:
  assumes "write_zip_entry env sha1 base filename mode s = Some (Returned (- 1) s')"
  shows "stdout s' = stdout s" "zip_offset s' = zip_offset s"
    "zip_dir_offset s' = zip_dir_offset s" "zip_dir_entries s' = zip_dir_entries s"
    "zip_dir s' = zip_dir s" "zip_dir_size s' = zip_dir_size s"
    "zip_date s' = zip_date s" "zip_time s' = zip_time s"
    "length (stderr s') = Suc (length (stderr s))"
  unfolding write_zip_entry_skipped(1) [OF assms] by simp_all

lemma length_emitted:
  assumes "write_zip_entry env sha1 base filename mode s = Some (Returned r s')"
    and "r \<noteq> - 1" and "zlib_framed env"
  shows "length (emitted s s') =
     30 + length (entry_path base filename mode) +
     unat (v_compressed_size (entry_fields env sha1 mode))"
  unfolding write_zip_entry_effect(1) [OF assms(1,2)]
  by (simp add: entry_fields_payload_length [OF assms(3)] del: length_take)

lemma zip_offset_advances:
  assumes "write_zip_entry env sha1 base filename mode s = Some (Returned r s')"
    and "r \<noteq> - 1" and "zlib_framed env"
  shows "zip_offset s' = zip_offset s + of_nat (length (emitted s s'))"
proof -
  have "(of_nat (30 + l + unat c) :: uint) = 30 + of_nat l + ucast c" for l and c :: ulong
    by simp
  then show ?thesis
    unfolding length_emitted [OF assms] write_zip_entry_effect(7) [OF assms(1,2)]
    by (simp only: add.assoc)
qed

lemma unat_plus_of_nat: "unat (x + of_nat n :: uint) = (unat x + n) mod 2 ^ 32"
  by (simp add: unat_word_ariths unat_of_nat mod_add_right_eq)

lemma zip_offset_step:
  assumes w: "write_zip_entry env sha1 base filename mode s = Some (Returned r s')"
    and f: "zlib_framed env"
    and i: "unat (zip_offset s) = length (stdout s) mod 2 ^ 32"
  shows "unat (zip_offset s') = length (stdout s') mod 2 ^ 32"
proof (cases "r = - 1")
  case True
  with w i show ?thesis by (simp add: write_zip_entry_skipped_fields)
next
  case False
  have "unat (zip_offset s') = (unat (zip_offset s) + length (emitted s s')) mod 2 ^ 32"
    unfolding zip_offset_advances [OF w False f] by (rule unat_plus_of_nat)
  also have "\<dots> = (length (stdout s) + length (emitted s s')) mod 2 ^ 32"
    unfolding i by (simp add: mod_add_left_eq)
  finally show ?thesis
    by (simp add: write_zip_entry_effect(3) [OF w False])
qed

lemma zip_offset_tracks_output:
  assumes "write_zip_entries env es (zip_init date time heap) = Some (Finished rs s)"
    and "zlib_framed env"
  shows "unat (zip_offset s) = length (stdout s) mod 2 ^ 32"
  by (rule write_zip_entries_invariant [OF assms(1), where I = "\<lambda>s. unat (zip_offset s) = length (stdout s) mod 2 ^ 32"])
     (simp_all add: zip_offset_step [OF _ assms(2)] zip_init_def)


text \<open>In a build the entry count and the directory cursor do not wrap: every record takes
  at least 46 bytes of a buffer that stays below \<open>2^32\<close> bytes.\<close>

lemma entries_step:
  assumes w: "write_zip_entry env sha1 base filename mode s = Some (Returned r s')"
    and i: "unat (zip_dir_entries s) = a \<and> 46 * a \<le> unat (zip_dir_offset s) \<and>
            length (stderr s) = b"
  shows "unat (zip_dir_entries s') = (if r = - 1 then a else Suc a) \<and>
         46 * (if r = - 1 then a else Suc a) \<le> unat (zip_dir_offset s') \<and>
         length (stderr s') = (if r = - 1 then Suc b else b)"
proof (cases "r = - 1")
  case True
  with w i show ?thesis by (simp add: write_zip_entry_skipped_fields)
next
  case False
  note eff = write_zip_entry_effect [OF w False]
  have off: "46 * Suc a \<le> unat (zip_dir_offset s')"
    unfolding eff(4) using i by simp
  have "unat (zip_dir_offset s') < 2 ^ 32"
    using unsigned_less [of "zip_dir_offset s'"] by simp
  with off have "unat (zip_dir_entries s) + 1 < 2 ^ 32" using i by simp
  then have "unat (zip_dir_entries s + 1) = Suc a"
    using i by (simp add: unat_word_ariths)
  with off False i show ?thesis by (simp add: eff(6,9))
qed

lemma entries_counted:
  assumes "write_zip_entries env es (zip_init date time heap) = Some (Finished rs s)"
  shows "unat (zip_dir_entries s) = encoded_count rs"
    and "length (stderr s) = length rs - encoded_count rs"
    and "46 * encoded_count rs \<le> unat (zip_dir_offset s)"
proof -
  have "unat (zip_dir_entries s) = 0 + encoded_count rs \<and>
        46 * (0 + encoded_count rs) \<le> unat (zip_dir_offset s) \<and>
        length (stderr s) = 0 + (length rs - encoded_count rs)"
    by (rule write_zip_entries_counting [OF assms, where
          I = "\<lambda>a b s. unat (zip_dir_entries s) = a \<and> 46 * a \<le> unat (zip_dir_offset s) \<and>
                 length (stderr s) = b"])
       (simp_all add: entries_step zip_init_def)
  then show "unat (zip_dir_entries s) = encoded_count rs"
    and "length (stderr s) = length rs - encoded_count rs"
    and "46 * encoded_count rs \<le> unat (zip_dir_offset s)"
    by simp_all
qed

text \<open>A build of directories and readable regular files, each with a path of at most \<open>k\<close>
  bytes, finishes when the directory stays below \<open>2^32 - 2^20\<close> bytes.\<close>

lemma write_zip_entries_returns:
  assumes "\<forall>e \<in> set es.
       length (entry_path (e_base e) (e_filename e) (e_mode e)) \<le> k \<and>
       (S_ISDIR (e_mode e) \<or> S_ISREG (e_mode e) \<and> read_sha1_file env (e_sha1 e) \<noteq> None)"
    and "k \<le> 65535"
    and "unat (zip_dir_offset s) + length es * (46 + k) \<le> 2 ^ 32 - 2 ^ 20"
  shows "\<exists>s'. write_zip_entries env es s =
     Some (Finished (map (\<lambda>e. if S_ISDIR (e_mode e) then READ_TREE_RECURSIVE else 0) es) s')"
  using assms(1,3)
proof (induction es arbitrary: s)
  case Nil
  then show ?case by simp
next
  case (Cons e es)
  let ?path = "entry_path (e_base e) (e_filename e) (e_mode e)"
  let ?r = "if S_ISDIR (e_mode e) then READ_TREE_RECURSIVE else 0"
  from Cons.prems(1) have e: "length ?path \<le> k"
    "S_ISDIR (e_mode e) \<or> S_ISREG (e_mode e) \<and> read_sha1_file env (e_sha1 e) \<noteq> None"
    by simp_all
  from e(1) assms(2) have len: "length ?path \<le> 65535" by simp
  have cap: "unat (zip_dir_offset s) + 46 + length ?path \<le> 2 ^ 32 - 2 ^ 20"
    using Cons.prems(2) e(1) by simp
  from write_zip_entry_returns [OF len e(2) cap] obtain s1 where
    w: "write_zip_entry env (e_sha1 e) (e_base e) (e_filename e) (e_mode e) s =
       Some (Returned ?r s1)"
    by blast
  have nr: "?r \<noteq> - 1" by (simp add: READ_TREE_RECURSIVE_def)
  have "unat (zip_dir_offset s1) = unat (zip_dir_offset s) + 46 + length ?path"
    by (rule write_zip_entry_effect(4) [OF w nr])
  with Cons.prems(2) e(1)
  have cap1: "unat (zip_dir_offset s1) + length es * (46 + k) \<le> 2 ^ 32 - 2 ^ 20"
    by simp
  from Cons.prems(1) have "\<forall>e \<in> set es.
       length (entry_path (e_base e) (e_filename e) (e_mode e)) \<le> k \<and>
       (S_ISDIR (e_mode e) \<or> S_ISREG (e_mode e) \<and> read_sha1_file env (e_sha1 e) \<noteq> None)"
    by simp
  from Cons.IH [OF this cap1] obtain s' where
    "write_zip_entries env es s1 =
       Some (Finished (map (\<lambda>e. if S_ISDIR (e_mode e) then READ_TREE_RECURSIVE else 0) es) s')"
    by blast
  with w show ?case by simp
qed

lemma sample_entry_simps [simp]:
  "e_sha1 sample_dir = sha1_commit" "e_base sample_dir = []" "e_filename sample_dir = [0x64]"
  "e_mode sample_dir = 0x41ff"
  "e_sha1 sample_file = sha1_hello" "e_base sample_file = [0x64, 0x2f]"
  "e_filename sample_file = [0x66]" "e_mode sample_file = 0x81a4"
  "e_sha1 sample_big_file = sha1_big" "e_base sample_big_file = []"
  "e_filename sample_big_file = [0x62]" "e_mode sample_big_file = 0x81a4"
  by (simp_all add: sample_dir_def sample_file_def sample_big_file_def)

lemma sample_init_is_zip_init: "sample_init = zip_init 13607 24576 (\<lambda>i. 0)"
  by (simp add: sample_init_def)

section \<open>The claims\<close>

text \<open>C7, as amended: a directory entry is written with method 0, compressed size 0,
  size 0 and CRC 0, its path ends in \<^verbatim>\<open>/\<close>, nothing follows the header and the path, and
  the call returns \<^verbatim>\<open>READ_TREE_RECURSIVE\<close>. For every encoded entry the compressed-size
  field is the length of the payload modulo \<open>2^32\<close>: a nonzero field means a payload was
  written, and a payload shorter than \<open>2^32\<close> bytes is non-empty exactly when the field
  is nonzero.\<close>

theorem directory_entry_has_no_payload:
  assumes "write_zip_entry env sha1 base filename mode s = Some (Returned r s')"
    and "r \<noteq> - 1"
    and "zlib_framed env"
  shows "let h = read_local_header (emitted s s');
             path = entry_path base filename mode;
             data = payload base filename mode s s'
         in emitted s s' = local_header_bytes h @ path @ data \<and>
            (S_ISDIR mode \<longrightarrow>
               r = READ_TREE_RECURSIVE \<and>
               h_compression_method h = copy_le16 0 \<and>
               h_compressed_size h = copy_le32 0 \<and>
               h_size h = copy_le32 0 \<and>
               h_crc32 h = copy_le32 0 \<and>
               path = base @ filename @ [0x2f] \<and>
               data = []) \<and>
            le_value (h_compressed_size h) = length data mod 2 ^ 32 \<and>
            (le_value (h_compressed_size h) \<noteq> 0 \<longrightarrow> data \<noteq> []) \<and>
            (length data < 2 ^ 32 \<longrightarrow> (data \<noteq> [] \<longleftrightarrow> le_value (h_compressed_size h) \<noteq> 0))"
proof -
  let ?v = "entry_fields env sha1 mode"
  note enc = write_zip_entry_encoded [OF assms(1,2)]
  note rd = read_emitted [OF assms(1,2)]
  note pl = payload_eq [OF assms(1,2)]
  have len: "length (payload base filename mode s s') = unat (v_compressed_size ?v)"
    unfolding pl by (rule entry_fields_payload_length [OF assms(3)])
  have fld: "le_value (h_compressed_size (read_local_header (emitted s s'))) =
      length (payload base filename mode s s') mod 2 ^ 32"
    unfolding rd(1) len by (simp add: fill_header_def le_value_ucast_ulong)
  have dir: "S_ISDIR mode \<longrightarrow>
               r = READ_TREE_RECURSIVE \<and>
               h_compression_method (read_local_header (emitted s s')) = copy_le16 0 \<and>
               h_compressed_size (read_local_header (emitted s s')) = copy_le32 0 \<and>
               h_size (read_local_header (emitted s s')) = copy_le32 0 \<and>
               h_crc32 (read_local_header (emitted s s')) = copy_le32 0 \<and>
               entry_path base filename mode = base @ filename @ [0x2f] \<and>
               payload base filename mode s s' = []"
    unfolding rd(1) pl using enc(4)
    by (simp add: fill_header_def entry_fields_dir entry_path_dir)
  have nz: "le_value (h_compressed_size (read_local_header (emitted s s'))) \<noteq> 0 \<longrightarrow>
      payload base filename mode s s' \<noteq> []"
    unfolding fld by auto
  have iff: "length (payload base filename mode s s') < 2 ^ 32 \<longrightarrow>
      (payload base filename mode s s' \<noteq> [] \<longleftrightarrow>
       le_value (h_compressed_size (read_local_header (emitted s s'))) \<noteq> 0)"
    unfolding fld by auto
  show ?thesis
    unfolding Let_def using rd(3) dir fld nz iff by blast
qed

theorem directory_entry_has_no_payload_witness:
  "case write_zip_entry (sample_env 6) sha1_commit [] [0x64] 0x41ff sample_init of
     Some (Returned r s') \<Rightarrow>
       r = READ_TREE_RECURSIVE \<and>
       emitted sample_init s' =
         local_header_bytes (read_local_header (emitted sample_init s')) @ [0x64, 0x2f] \<and>
       h_compressed_size (read_local_header (emitted sample_init s')) = [0, 0, 0, 0] \<and>
       h_compression_method (read_local_header (emitted sample_init s')) = [0, 0] \<and>
       payload [] [0x64] 0x41ff sample_init s' = []
   | _ \<Rightarrow> False"
proof -
  have "\<exists>s'. write_zip_entry (sample_env 6) sha1_commit [] [0x64] 0x41ff sample_init =
      Some (Returned (if S_ISDIR 0x41ff then READ_TREE_RECURSIVE else 0) s')"
    by (rule write_zip_entry_returns) (simp_all add: entry_path_dir sample_modes)
  then obtain s' where
    w: "write_zip_entry (sample_env 6) sha1_commit [] [0x64] 0x41ff sample_init =
      Some (Returned READ_TREE_RECURSIVE s')"
    by (auto simp: sample_modes)
  have nr: "READ_TREE_RECURSIVE \<noteq> - 1" by (simp add: READ_TREE_RECURSIVE_def)
  have "emitted sample_init s' =
         local_header_bytes (read_local_header (emitted sample_init s')) @ [0x64, 0x2f] \<and>
       h_compressed_size (read_local_header (emitted sample_init s')) = [0, 0, 0, 0] \<and>
       h_compression_method (read_local_header (emitted sample_init s')) = [0, 0] \<and>
       payload [] [0x64] 0x41ff sample_init s' = []"
    using directory_entry_has_no_payload [OF w nr sample_env_framed]
    unfolding Let_def
    by (auto simp: sample_modes copy_le32_def copy_le16_def)
  then show ?thesis
    by (simp add: w)
qed

text \<open>C7 as stated fails for a stored blob of exactly \<open>2^32\<close> bytes: all of it is written
  after the header and the path, and the compressed-size field holds zero.\<close>

theorem payload_written_with_zero_size_field:
  "case write_zip_entry (sample_env 0) sha1_big [] [0x62] 0x81a4 sample_init of
     Some (Returned r s') \<Rightarrow>
       r = 0 \<and>
       h_compressed_size (read_local_header (emitted sample_init s')) = [0, 0, 0, 0] \<and>
       le_value (h_compressed_size (read_local_header (emitted sample_init s'))) = 0 \<and>
       length (payload [] [0x62] 0x81a4 sample_init s') = 4294967296
   | _ \<Rightarrow> False"
proof -
  have "\<exists>s'. write_zip_entry (sample_env 0) sha1_big [] [0x62] 0x81a4 sample_init =
      Some (Returned (if S_ISDIR 0x81a4 then READ_TREE_RECURSIVE else 0) s')"
    by (rule write_zip_entry_returns)
       (simp_all add: entry_path_file sample_modes sample_store_simps)
  then obtain s' where
    w: "write_zip_entry (sample_env 0) sha1_big [] [0x62] 0x81a4 sample_init =
      Some (Returned 0 s')"
    by (auto simp: sample_modes)
  have nr: "(0 :: int) \<noteq> - 1" by simp
  note rd = read_emitted [OF w nr]
  have p: "length (payload [] [0x62] 0x81a4 sample_init s') = 4294967296"
    unfolding payload_eq [OF w nr] by (simp add: sample_big_fields length_sample_big)
  have f: "h_compressed_size (read_local_header (emitted sample_init s')) = [0, 0, 0, 0]"
    unfolding rd(1) by (simp add: fill_header_def sample_big_fields copy_le32_def)
  show ?thesis
    using p f by (simp add: w)
qed

text \<open>C1, as amended: for every entry that is encoded, the 30-byte local header and the
  46-byte directory record carry the same method, mtime, mdate, CRC-32, compressed size,
  size and filename length. The CRC-32 field is zero, the CRC-32 of the empty string, for
  a directory; for a regular file it is the CRC-32 of the first \<^verbatim>\<open>size\<close> modulo \<open>2^32\<close>
  bytes of the blob, which is the CRC-32 of the blob when the blob is shorter than
  \<open>2^32\<close> bytes.\<close>

theorem local_header_matches_directory_record:
  assumes "write_zip_entry env sha1 base filename mode s = Some (Returned r s')"
    and "r \<noteq> - 1"
  shows "let h = read_local_header (emitted s s');
             d = read_dir_header (dir_appended s s')
         in take 30 (emitted s s') = local_header_bytes h \<and>
            take 46 (dir_appended s s') = dir_header_bytes d \<and>
            h_magic h = copy_le32 0x04034b50 \<and>
            d_magic d = copy_le32 0x02014b50 \<and>
            h_compression_method h = d_compression_method d \<and>
            h_mtime h = d_mtime d \<and>
            h_mdate h = d_mdate d \<and>
            h_crc32 h = d_crc32 d \<and>
            h_compressed_size h = d_compressed_size d \<and>
            h_size h = d_size d \<and>
            h_filename_length h = d_filename_length d \<and>
            (S_ISDIR mode \<longrightarrow> le_value (h_crc32 h) = 0 \<and> crc32 0 (Some []) = 0) \<and>
            (\<not> S_ISDIR mode \<longrightarrow>
               (\<exists>buffer. read_sha1_file env sha1 = Some buffer \<and>
                  le_value (h_crc32 h) =
                    unat (crc32 0 (Some (take (length buffer mod 2 ^ 32) buffer))) \<and>
                  (length buffer < 2 ^ 32 \<longrightarrow>
                     le_value (h_crc32 h) = unat (crc32 0 (Some buffer)))))"
proof -
  let ?path = "entry_path base filename mode"
  let ?v = "entry_fields env sha1 mode"
  note enc = write_zip_entry_encoded [OF assms]
  note rd = read_emitted [OF assms]
  note eff = write_zip_entry_effect [OF assms]
  have v: "le_value (copy_le32 (ucast (crc32 c b))) = unat (crc32 c b)" for c b
    by (simp only: le_value_copy_le32 unat_crc32_field)
  have dir: "S_ISDIR mode \<longrightarrow>
      le_value (h_crc32 (fill_header s ?v l)) = 0 \<and> crc32 0 (Some []) = 0" for l
    using v [of 0 "Some []"]
    by (simp add: fill_header_def entry_fields_dir crc32_empty)
  have reg: "\<not> S_ISDIR mode \<longrightarrow>
      (\<exists>buffer. read_sha1_file env sha1 = Some buffer \<and>
         le_value (h_crc32 (fill_header s ?v l)) =
           unat (crc32 0 (Some (take (length buffer mod 2 ^ 32) buffer))) \<and>
         (length buffer < 2 ^ 32 \<longrightarrow>
            le_value (h_crc32 (fill_header s ?v l)) = unat (crc32 0 (Some buffer))))" for l
  proof
    assume nd: "\<not> S_ISDIR mode"
    with prepare_entry_Encode_reg [OF enc(2)] obtain buffer
      where b: "S_ISREG mode" "read_sha1_file env sha1 = Some buffer" by auto
    have "le_value (h_crc32 (fill_header s ?v l)) = unat (crc32 0 (Some (uInt_prefix buffer)))"
      by (simp add: fill_header_def entry_fields_reg(2) [OF nd b] v)
    then show "\<exists>buffer. read_sha1_file env sha1 = Some buffer \<and>
         le_value (h_crc32 (fill_header s ?v l)) =
           unat (crc32 0 (Some (take (length buffer mod 2 ^ 32) buffer))) \<and>
         (length buffer < 2 ^ 32 \<longrightarrow>
            le_value (h_crc32 (fill_header s ?v l)) = unat (crc32 0 (Some buffer)))"
      using b(2) by (auto simp: uInt_prefix_def)
  qed
  have t30: "take 30 (emitted s s') = local_header_bytes (fill_header s ?v (int (length ?path)))"
    unfolding eff(1) by simp
  have t46: "take 46 (dir_appended s s') = dir_header_bytes (fill_dirent s ?v (int (length ?path)))"
    unfolding eff(2) by simp
  have same: "h_magic (fill_header s ?v l) = copy_le32 0x04034b50 \<and>
      d_magic (fill_dirent s ?v l) = copy_le32 0x02014b50 \<and>
      h_compression_method (fill_header s ?v l) = d_compression_method (fill_dirent s ?v l) \<and>
      h_mtime (fill_header s ?v l) = d_mtime (fill_dirent s ?v l) \<and>
      h_mdate (fill_header s ?v l) = d_mdate (fill_dirent s ?v l) \<and>
      h_crc32 (fill_header s ?v l) = d_crc32 (fill_dirent s ?v l) \<and>
      h_compressed_size (fill_header s ?v l) = d_compressed_size (fill_dirent s ?v l) \<and>
      h_size (fill_header s ?v l) = d_size (fill_dirent s ?v l) \<and>
      h_filename_length (fill_header s ?v l) = d_filename_length (fill_dirent s ?v l)" for l
    by (simp add: fill_header_def fill_dirent_def)
  show ?thesis
    unfolding Let_def rd(1,2) t30 t46
    using same dir reg by blast
qed

theorem local_header_matches_directory_record_witness:
  "(case write_zip_entry (sample_env 0) sha1_hello [0x64, 0x2f] [0x66] 0x81a4 sample_init of
     Some (Returned r s') \<Rightarrow>
       r = 0 \<and>
       h_crc32 (read_local_header (emitted sample_init s')) =
         d_crc32 (read_dir_header (dir_appended sample_init s')) \<and>
       h_compression_method (read_local_header (emitted sample_init s')) =
         d_compression_method (read_dir_header (dir_appended sample_init s')) \<and>
       le_value (h_crc32 (read_local_header (emitted sample_init s'))) = 0x3610a686
   | _ \<Rightarrow> False) \<and>
   (case write_zip_entry (sample_env 0) sha1_commit [] [0x64] 0x41ff sample_init of
     Some (Returned r s') \<Rightarrow>
       r = READ_TREE_RECURSIVE \<and>
       h_crc32 (read_local_header (emitted sample_init s')) =
         d_crc32 (read_dir_header (dir_appended sample_init s')) \<and>
       le_value (h_crc32 (read_local_header (emitted sample_init s'))) = 0
   | _ \<Rightarrow> False)"
proof -
  have "\<exists>s'. write_zip_entry (sample_env 0) sha1_hello [0x64, 0x2f] [0x66] 0x81a4 sample_init =
      Some (Returned (if S_ISDIR 0x81a4 then READ_TREE_RECURSIVE else 0) s')"
    by (rule write_zip_entry_returns)
       (simp_all add: entry_path_file sample_modes sample_store_simps)
  then obtain s' where
    w: "write_zip_entry (sample_env 0) sha1_hello [0x64, 0x2f] [0x66] 0x81a4 sample_init =
      Some (Returned 0 s')"
    by (auto simp: sample_modes)
  have nr: "(0 :: int) \<noteq> - 1" by simp
  have len: "length sample_hello mod 2 ^ 32 = 5" "length sample_hello = 5"
    by (simp_all add: sample_hello_def)
  have fl: "h_crc32 (read_local_header (emitted sample_init s')) =
         d_crc32 (read_dir_header (dir_appended sample_init s')) \<and>
       h_compression_method (read_local_header (emitted sample_init s')) =
         d_compression_method (read_dir_header (dir_appended sample_init s')) \<and>
       le_value (h_crc32 (read_local_header (emitted sample_init s'))) = 0x3610a686"
    using local_header_matches_directory_record [OF w nr]
    unfolding Let_def
    by (auto simp: sample_modes sample_store_simps crc32_sample_hello len)
  have "\<exists>s'. write_zip_entry (sample_env 0) sha1_commit [] [0x64] 0x41ff sample_init =
      Some (Returned (if S_ISDIR 0x41ff then READ_TREE_RECURSIVE else 0) s')"
    by (rule write_zip_entry_returns) (simp_all add: entry_path_dir sample_modes)
  then obtain s'' where
    w2: "write_zip_entry (sample_env 0) sha1_commit [] [0x64] 0x41ff sample_init =
      Some (Returned READ_TREE_RECURSIVE s'')"
    by (auto simp: sample_modes)
  have nr2: "READ_TREE_RECURSIVE \<noteq> - 1" by (simp add: READ_TREE_RECURSIVE_def)
  have dr: "h_crc32 (read_local_header (emitted sample_init s'')) =
         d_crc32 (read_dir_header (dir_appended sample_init s'')) \<and>
       le_value (h_crc32 (read_local_header (emitted sample_init s''))) = 0"
    using local_header_matches_directory_record [OF w2 nr2]
    unfolding Let_def
    by (auto simp: sample_modes)
  show ?thesis
    using fl dr by (auto simp: w w2)
qed

text \<open>C1 as stated fails for a blob of \<open>2^32\<close> bytes that starts with four bytes
  \<^verbatim>\<open>0xff\<close>: its CRC-32 is \<^verbatim>\<open>0xffffffff\<close>, and the field written is zero, the sum of no
  bytes at all.\<close>

theorem crc_field_of_large_blob_is_not_its_crc:
  "case write_zip_entry (sample_env 0) sha1_ff_big [] [0x62] 0x81a4 sample_init of
     Some (Returned r s') \<Rightarrow>
       r = 0 \<and>
       h_crc32 (read_local_header (emitted sample_init s')) = [0, 0, 0, 0] \<and>
       le_value (h_crc32 (read_local_header (emitted sample_init s'))) = 0 \<and>
       read_sha1_file (sample_env 0) sha1_ff_big = Some sample_ff_big \<and>
       unat (crc32 0 (Some sample_ff_big)) = 4294967295
   | _ \<Rightarrow> False"
proof -
  have "\<exists>s'. write_zip_entry (sample_env 0) sha1_ff_big [] [0x62] 0x81a4 sample_init =
      Some (Returned (if S_ISDIR 0x81a4 then READ_TREE_RECURSIVE else 0) s')"
    by (rule write_zip_entry_returns)
       (simp_all add: entry_path_file sample_modes sample_store_simps)
  then obtain s' where
    w: "write_zip_entry (sample_env 0) sha1_ff_big [] [0x62] 0x81a4 sample_init =
      Some (Returned 0 s')"
    by (auto simp: sample_modes)
  have nr: "(0 :: int) \<noteq> - 1" by simp
  note rd = read_emitted [OF w nr]
  have c: "v_crc (entry_fields (sample_env 0) sha1_ff_big 0x81a4) = 0"
    using entry_fields_reg(2) [of "0x81a4" "sample_env 0" sha1_ff_big sample_ff_big]
    by (simp add: sample_modes sample_store_simps uInt_prefix_sample_ff_big crc32_empty)
  have f: "h_crc32 (read_local_header (emitted sample_init s')) = [0, 0, 0, 0]"
    unfolding rd(1) by (simp add: fill_header_def c copy_le32_def)
  show ?thesis
    using f by (simp add: w sample_store_simps crc32_sample_ff_big)
qed

text \<open>C9: the profitability test subtracts 6 from the compressed size in unsigned
  arithmetic, so when the adapter hands back a stream shorter than 6 bytes the difference
  is at least \<open>2^64 - 6\<close> and the entry is stored; and an empty regular file, at any
  positive level, is written with method 0, compressed size 0 and no payload.\<close>

theorem short_stream_is_stored:
  assumes "write_zip_entry env sha1 base filename mode s = Some (Returned r s')"
    and "r \<noteq> - 1"
    and "\<not> S_ISDIR mode"
    and "0 < zlib_compression_level env"
    and "read_sha1_file env sha1 = Some buffer"
  shows "let h = read_local_header (emitted s s');
             data = payload base filename mode s s'
         in (\<forall>z compressed_size.
               zlib_deflate env buffer (of_nat (length buffer)) = Some (z, compressed_size) \<and>
               length z < 6 \<and> length buffer + 6 \<le> 2 ^ 64 \<longrightarrow>
                 unat (compressed_size - 6) = 2 ^ 64 - 6 + length z \<and>
                 h_compression_method h = copy_le16 0 \<and>
                 h_compressed_size h = h_size h \<and>
                 data = buffer) \<and>
            (buffer = [] \<longrightarrow>
               h_compression_method h = copy_le16 0 \<and>
               h_compressed_size h = copy_le32 0 \<and>
               h_size h = copy_le32 0 \<and>
               data = [])"
proof -
  let ?v = "entry_fields env sha1 mode"
  note enc = write_zip_entry_encoded [OF assms(1,2)]
  note rd = read_emitted [OF assms(1,2)]
  note pl = payload_eq [OF assms(1,2)]
  from prepare_entry_Encode_reg [OF enc(2) assms(3)] have reg: "S_ISREG mode" by simp
  from assms(4) have lvl: "zlib_compression_level env \<noteq> 0" by simp
  note fl = entry_fields_adapter [OF assms(3) reg assms(5) lvl]
  note fr = entry_fields_reg [OF assms(3) reg assms(5)]
  have empty: "buffer = [] \<longrightarrow>
      v_method ?v = 0 \<and> v_compressed_size ?v = 0 \<and> v_uncompressed_size ?v = 0"
    using fl fr(3) by (auto split: option.splits)
  have short: "unat (csize - 6) = 2 ^ 64 - 6 + length z \<and>
      v_method ?v = 0 \<and> v_compressed_size ?v = of_nat (length buffer) \<and> v_out ?v = buffer \<and>
      take (unat (of_nat (length buffer) :: ulong)) buffer = buffer"
    if z: "zlib_deflate env buffer (of_nat (length buffer)) = Some (z, csize)" "length z < 6"
      and b: "length buffer + 6 \<le> 2 ^ 64" for z csize
  proof -
    from b have bl: "length buffer < 2 ^ 64" by simp
    from z(1) have cs: "csize = of_nat (length z)"
      by (auto simp: zlib_deflate_def Let_def split: option.splits)
    have wrap: "unat (csize - 6) = 2 ^ 64 - 6 + length z"
      unfolding cs using z(2) by (rule unat_short_stream)
    have "unat (of_nat (length buffer) :: ulong) \<le> unat (csize - 6)"
      unfolding wrap using b bl by (simp add: unat_of_nat_ulong)
    then have "\<not> csize - 6 < of_nat (length buffer)"
      by (simp add: word_less_nat_alt)
    then show ?thesis
      using fl z(1) wrap by (simp add: stored_payload [OF bl])
  qed
  show ?thesis
    unfolding Let_def rd(1) pl
    using empty short fr(3)
    by (auto simp: fill_header_def)
qed

theorem short_stream_is_stored_witness:
  "(case write_zip_entry (short_env 6) sha1_hello [] [0x66] 0x81a4 sample_init of
     Some (Returned r s') \<Rightarrow>
       r = 0 \<and>
       zlib_deflate (short_env 6) sample_hello (of_nat (length sample_hello)) =
         Some ([0x78, 0x9c, 0x03], 3) \<and>
       unat (3 - 6 :: ulong) = 2 ^ 64 - 3 \<and>
       h_compression_method (read_local_header (emitted sample_init s')) = [0, 0] \<and>
       h_compressed_size (read_local_header (emitted sample_init s')) = [5, 0, 0, 0] \<and>
       payload [] [0x66] 0x81a4 sample_init s' = sample_hello
   | _ \<Rightarrow> False) \<and>
   (case write_zip_entry (sample_env 6) sha1_empty [] [0x65] 0x81a4 sample_init of
     Some (Returned r s') \<Rightarrow>
       r = 0 \<and>
       h_compression_method (read_local_header (emitted sample_init s')) = [0, 0] \<and>
       h_compressed_size (read_local_header (emitted sample_init s')) = [0, 0, 0, 0] \<and>
       payload [] [0x65] 0x81a4 sample_init s' = []
   | _ \<Rightarrow> False)"
proof -
  have nr: "(0 :: int) \<noteq> - 1" by simp
  have d: "\<not> S_ISDIR (0x81a4 :: uint)" by (rule sample_modes)
  have "\<exists>s'. write_zip_entry (short_env 6) sha1_hello [] [0x66] 0x81a4 sample_init =
      Some (Returned (if S_ISDIR 0x81a4 then READ_TREE_RECURSIVE else 0) s')"
    by (rule write_zip_entry_returns)
       (simp_all add: entry_path_file sample_modes sample_store_simps)
  then obtain s' where
    w: "write_zip_entry (short_env 6) sha1_hello [] [0x66] 0x81a4 sample_init =
      Some (Returned 0 s')"
    by (auto simp: sample_modes)
  have l: "0 < zlib_compression_level (short_env 6)" by simp
  have b: "read_sha1_file (short_env 6) sha1_hello = Some sample_hello"
    by (simp add: sample_store_simps)
  have a: "zlib_deflate (short_env 6) sample_hello (of_nat (length sample_hello)) =
      Some ([0x78, 0x9c, 0x03], 3)"
    by (simp add: zlib_deflate_def short_deflate_def)
  have n: "length sample_hello + 6 \<le> 2 ^ 64" by (simp add: sample_hello_def)
  have size5: "copy_le32 (ucast (of_nat (length sample_hello) :: ulong)) = [5, 0, 0, 0]"
    by (simp add: sample_hello_def copy_le32_def)
  have sz: "h_size (read_local_header (emitted sample_init s')) = [5, 0, 0, 0]"
    unfolding read_emitted(1) [OF w nr]
    using entry_fields_reg(3) [OF d sample_modes(4) b]
    by (simp add: fill_header_def size5)
  have short: "unat (3 - 6 :: ulong) = 2 ^ 64 - 3 \<and>
       h_compression_method (read_local_header (emitted sample_init s')) = [0, 0] \<and>
       h_compressed_size (read_local_header (emitted sample_init s')) = [5, 0, 0, 0] \<and>
       payload [] [0x66] 0x81a4 sample_init s' = sample_hello"
    using short_stream_is_stored [OF w nr d l b, unfolded Let_def] a n sz
    by (auto simp: copy_le16_def)
  have "\<exists>s'. write_zip_entry (sample_env 6) sha1_empty [] [0x65] 0x81a4 sample_init =
      Some (Returned (if S_ISDIR 0x81a4 then READ_TREE_RECURSIVE else 0) s')"
    by (rule write_zip_entry_returns)
       (simp_all add: entry_path_file sample_modes sample_store_simps)
  then obtain s'' where
    w2: "write_zip_entry (sample_env 6) sha1_empty [] [0x65] 0x81a4 sample_init =
      Some (Returned 0 s'')"
    by (auto simp: sample_modes)
  have l2: "0 < zlib_compression_level (sample_env 6)" by simp
  have b2: "read_sha1_file (sample_env 6) sha1_empty = Some []" by (simp add: sample_store_simps)
  have empty: "h_compression_method (read_local_header (emitted sample_init s'')) = [0, 0] \<and>
       h_compressed_size (read_local_header (emitted sample_init s'')) = [0, 0, 0, 0] \<and>
       payload [] [0x65] 0x81a4 sample_init s'' = []"
    using short_stream_is_stored [OF w2 nr d l2 b2]
    unfolding Let_def
    by (auto simp: copy_le32_def copy_le16_def)
  show ?thesis
    using short empty a by (auto simp: w w2)
qed

text \<open>C3: at a positive compression level a regular file is written with method 8 and,
  as payload, the adapter's output without its first two and its last four bytes exactly
  when the deflate call succeeds and the compressed byte count minus 6 is less than the
  uncompressed size; in every other case it is written with method 0, the blob itself as
  payload and a compressed size equal to the uncompressed size. The adapter's output is
  what zlib makes of the bytes it is handed, the first \<^verbatim>\<open>size\<close> modulo \<open>2^32\<close> of the
  blob.\<close>

theorem deflate_only_when_smaller:
  assumes "write_zip_entry env sha1 base filename mode s = Some (Returned r s')"
    and "r \<noteq> - 1"
    and "\<not> S_ISDIR mode"
    and "0 < zlib_compression_level env"
    and "read_sha1_file env sha1 = Some buffer"
    and "length buffer < 2 ^ 64"
    and "zlib_framed env"
  shows "let h = read_local_header (emitted s s');
             data = payload base filename mode s s';
             stored = (h_compression_method h = copy_le16 0 \<and> data = buffer \<and>
                       h_compressed_size h = h_size h)
         in zlib_deflate env buffer (of_nat (length buffer)) =
              map_option (\<lambda>z. (z, of_nat (length z)))
                (deflate env (zlib_compression_level env) (of_nat (length buffer))
                   (take (length buffer mod 2 ^ 32) buffer)) \<and>
            le_value (h_size h) = length buffer mod 2 ^ 32 \<and>
            (case zlib_deflate env buffer (of_nat (length buffer)) of
               None \<Rightarrow> stored
             | Some (z, compressed_size) \<Rightarrow>
                 unat compressed_size = length z \<and>
                 (if length z - 6 < length buffer
                  then h_compression_method h = copy_le16 8 \<and>
                       z = take 2 z @ data @ drop (length z - 4) z \<and>
                       length data = length z - 6 \<and>
                       le_value (h_compressed_size h) = length data mod 2 ^ 32
                  else stored))"
proof -
  let ?v = "entry_fields env sha1 mode"
  note enc = write_zip_entry_encoded [OF assms(1,2)]
  note rd = read_emitted [OF assms(1,2)]
  note pl = payload_eq [OF assms(1,2)]
  from prepare_entry_Encode_reg [OF enc(2) assms(3)] have reg: "S_ISREG mode" by simp
  from assms(4) have lvl: "zlib_compression_level env \<noteq> 0" by simp
  note fl = entry_fields_adapter [OF assms(3) reg assms(5) lvl]
  note fr = entry_fields_reg [OF assms(3) reg assms(5)]
  have ad: "zlib_deflate env buffer (of_nat (length buffer)) =
              map_option (\<lambda>z. (z, of_nat (length z)))
                (deflate env (zlib_compression_level env) (of_nat (length buffer))
                   (take (length buffer mod 2 ^ 32) buffer))"
    unfolding zlib_deflate_eq uInt_prefix_def ..
  have usz: "le_value (h_size (fill_header s ?v l)) = length buffer mod 2 ^ 32" for l
    using assms(6) by (simp add: fill_header_def fr(3) le_value_ucast_ulong unat_of_nat_ulong)
  have st: "h_compression_method (fill_header s ?v l) = copy_le16 0 \<and>
            take (unat (v_compressed_size ?v)) (v_out ?v) = buffer \<and>
            h_compressed_size (fill_header s ?v l) = h_size (fill_header s ?v l)"
    if "v_method ?v = 0" "v_out ?v = buffer" "v_compressed_size ?v = of_nat (length buffer)" for l
    using that fr(3) by (simp add: fill_header_def stored_payload [OF assms(6)])
  show ?thesis
  proof (cases "zlib_deflate env buffer (of_nat (length buffer))")
    case None
    with fl st ad usz show ?thesis
      unfolding Let_def rd(1) pl by simp
  next
    case (Some a)
    obtain z csize where a: "a = (z, csize)" by (cases a)
    with Some ad obtain z': "deflate env (zlib_compression_level env) (of_nat (length buffer))
        (take (length buffer mod 2 ^ 32) buffer) = Some z" and cs: "csize = of_nat (length z)"
      by auto
    with assms(7) have z: "6 \<le> length z" "length z < 2 ^ 64"
      by (auto simp: zlib_framed_def)
    have ucs: "unat csize = length z"
      unfolding cs using z(2) by (rule unat_of_nat_ulong)
    have cmp: "csize - 6 < of_nat (length buffer) \<longleftrightarrow> length z - 6 < length buffer"
      unfolding cs using z assms(6)
      by (simp add: word_less_nat_alt unat_stripped unat_of_nat_ulong)
    show ?thesis
    proof (cases "length z - 6 < length buffer")
      case False
      with fl Some a cmp st ad usz ucs show ?thesis
        unfolding Let_def rd(1) pl by simp
    next
      case True
      with fl Some a cmp have v: "v_method ?v = 8" "v_out ?v = drop 2 z"
        "v_compressed_size ?v = of_nat (length z) - 6"
        by (simp_all add: cs)
      have data: "take (unat (v_compressed_size ?v)) (v_out ?v) = take (length z - 6) (drop 2 z)"
        unfolding v using z by (simp add: unat_stripped)
      have len: "length (take (length z - 6) (drop 2 z)) = length z - 6"
        using z by simp
      have fld: "le_value (h_compressed_size (fill_header s ?v l)) = (length z - 6) mod 2 ^ 32" for l
        using z by (simp add: fill_header_def v le_value_ucast_ulong unat_stripped)
      have m8: "h_compression_method (fill_header s ?v l) = copy_le16 8" for l
        by (simp add: fill_header_def v)
      show ?thesis
        unfolding Let_def rd(1) pl data
        using Some a True strip_framing [OF z(1)] len fld ad usz ucs m8
        by simp
    qed
  qed
qed

theorem deflate_only_when_smaller_witness:
  "(case write_zip_entry (sample_env 6) sha1_a12 [] [0x61] 0x81a4 sample_init of
     Some (Returned r s') \<Rightarrow>
       r = 0 \<and>
       h_compression_method (read_local_header (emitted sample_init s')) = [8, 0] \<and>
       payload [] [0x61] 0x81a4 sample_init s' = [0x4b, 0x4c, 0x44, 0x00, 0x00] \<and>
       le_value (h_compressed_size (read_local_header (emitted sample_init s'))) = 5
   | _ \<Rightarrow> False) \<and>
   (case write_zip_entry (sample_env 6) sha1_hello [] [0x68] 0x81a4 sample_init of
     Some (Returned r s') \<Rightarrow>
       r = 0 \<and>
       h_compression_method (read_local_header (emitted sample_init s')) = [0, 0] \<and>
       payload [] [0x68] 0x81a4 sample_init s' = sample_hello
   | _ \<Rightarrow> False) \<and>
   (case write_zip_entry (sample_env 6) sha1_bin [] [0x62] 0x81a4 sample_init of
     Some (Returned r s') \<Rightarrow>
       r = 0 \<and>
       zlib_deflate (sample_env 6) sample_bin (of_nat (length sample_bin)) = None \<and>
       h_compression_method (read_local_header (emitted sample_init s')) = [0, 0] \<and>
       payload [] [0x62] 0x81a4 sample_init s' = sample_bin
   | _ \<Rightarrow> False) \<and>
   (case write_zip_entry (sample_env 6) sha1_hello_big [] [0x42] 0x81a4 sample_init of
     Some (Returned r s') \<Rightarrow>
       r = 0 \<and>
       h_compression_method (read_local_header (emitted sample_init s')) = [8, 0] \<and>
       payload [] [0x42] 0x81a4 sample_init s' = [0xcb, 0x48, 0xcd, 0xc9, 0xc9, 0x07, 0x00] \<and>
       le_value (h_compressed_size (read_local_header (emitted sample_init s'))) = 7 \<and>
       le_value (h_size (read_local_header (emitted sample_init s'))) = 5
   | _ \<Rightarrow> False)"
proof -
  have nr: "(0 :: int) \<noteq> - 1" by simp
  have d: "\<not> S_ISDIR (0x81a4 :: uint)" by (rule sample_modes)
  have l: "0 < zlib_compression_level (sample_env 6)" by simp
  have ret: "\<exists>s'. write_zip_entry (sample_env 6) h [] [c] 0x81a4 sample_init = Some (Returned 0 s')"
    if "sample_store h \<noteq> None" for h c
    using write_zip_entry_returns [of "[]" "[c]" "0x81a4" "sample_env 6" h sample_init] that
    by (simp add: entry_path_file sample_modes)

  from ret [of sha1_a12 "0x61"] obtain s1 where
    w1: "write_zip_entry (sample_env 6) sha1_a12 [] [0x61] 0x81a4 sample_init = Some (Returned 0 s1)"
    by (auto simp: sample_store_simps)
  have b1: "read_sha1_file (sample_env 6) sha1_a12 = Some sample_a12"
    by (simp add: sample_store_simps)
  have n1: "length sample_a12 < 2 ^ 64" "length sample_a12 = 12" "length sample_a12 mod 2 ^ 32 = 12"
    by (simp_all add: sample_a12_def)
  have a1: "zlib_deflate (sample_env 6) sample_a12 (of_nat (length sample_a12)) =
      Some ([0x78, 0x9c, 0x4b, 0x4c, 0x44, 0x00, 0x00, 0x1d, 0x9a, 0x04, 0x8d], 11)"
    unfolding zlib_deflate_eq by (simp add: uInt_prefix_small n1 sample_a12_stream)
  have c1: "h_compression_method (read_local_header (emitted sample_init s1)) = [8, 0] \<and>
       payload [] [0x61] 0x81a4 sample_init s1 = [0x4b, 0x4c, 0x44, 0x00, 0x00] \<and>
       le_value (h_compressed_size (read_local_header (emitted sample_init s1))) = 5"
    using deflate_only_when_smaller [OF w1 nr d l b1 n1(1) sample_env_framed,
        unfolded Let_def a1 option.case prod.case]
    by (auto simp: n1 copy_le16_def)

  from ret [of sha1_hello "0x68"] obtain s2 where
    w2: "write_zip_entry (sample_env 6) sha1_hello [] [0x68] 0x81a4 sample_init = Some (Returned 0 s2)"
    by (auto simp: sample_store_simps)
  have b2: "read_sha1_file (sample_env 6) sha1_hello = Some sample_hello"
    by (simp add: sample_store_simps)
  have n2: "length sample_hello < 2 ^ 64" "length sample_hello = 5" "length sample_hello mod 2 ^ 32 = 5"
    by (simp_all add: sample_hello_def)
  have a2: "zlib_deflate (sample_env 6) sample_hello (of_nat (length sample_hello)) =
      Some ([0x78, 0x9c, 0xcb, 0x48, 0xcd, 0xc9, 0xc9, 0x07, 0x00, 0x06, 0x2c, 0x02, 0x15], 13)"
    unfolding zlib_deflate_eq by (simp add: uInt_prefix_small n2 sample_hello_stream)
  have c2: "h_compression_method (read_local_header (emitted sample_init s2)) = [0, 0] \<and>
       payload [] [0x68] 0x81a4 sample_init s2 = sample_hello"
    using deflate_only_when_smaller [OF w2 nr d l b2 n2(1) sample_env_framed,
        unfolded Let_def a2 option.case prod.case]
    by (auto simp: n2 copy_le16_def)

  from ret [of sha1_bin "0x62"] obtain s3 where
    w3: "write_zip_entry (sample_env 6) sha1_bin [] [0x62] 0x81a4 sample_init = Some (Returned 0 s3)"
    by (auto simp: sample_store_simps)
  have b3: "read_sha1_file (sample_env 6) sha1_bin = Some sample_bin"
    by (simp add: sample_store_simps)
  have n3: "length sample_bin < 2 ^ 64" "length sample_bin = 2" "length sample_bin mod 2 ^ 32 = 2"
    by (simp_all add: sample_bin_def)
  have a3: "zlib_deflate (sample_env 6) sample_bin (of_nat (length sample_bin)) = None"
    unfolding zlib_deflate_eq
    by (simp add: uInt_prefix_small n3 sample_deflate_def sample_bin_def
          sample_hello_def sample_a12_def)
  have c3: "h_compression_method (read_local_header (emitted sample_init s3)) = [0, 0] \<and>
       payload [] [0x62] 0x81a4 sample_init s3 = sample_bin"
    using deflate_only_when_smaller [OF w3 nr d l b3 n3(1) sample_env_framed,
        unfolded Let_def a3 option.case prod.case]
    by (auto simp: n3 copy_le16_def)

  from ret [of sha1_hello_big "0x42"] obtain s4 where
    w4: "write_zip_entry (sample_env 6) sha1_hello_big [] [0x42] 0x81a4 sample_init =
      Some (Returned 0 s4)"
    by (auto simp: sample_store_simps)
  have b4: "read_sha1_file (sample_env 6) sha1_hello_big = Some sample_hello_big"
    by (simp add: sample_store_simps)
  have n4: "length sample_hello_big < 2 ^ 64" "length sample_hello_big mod 2 ^ 32 = 5"
    by (simp_all add: length_sample_hello_big)
  have a4: "zlib_deflate (sample_env 6) sample_hello_big (of_nat (length sample_hello_big)) =
      Some ([0x78, 0x9c, 0xcb, 0x48, 0xcd, 0xc9, 0xc9, 0x07, 0x00, 0x06, 0x2c, 0x02, 0x15], 13)"
    unfolding zlib_deflate_eq by (simp add: uInt_prefix_sample_hello_big sample_hello_stream)
  have c4: "h_compression_method (read_local_header (emitted sample_init s4)) = [8, 0] \<and>
       payload [] [0x42] 0x81a4 sample_init s4 = [0xcb, 0x48, 0xcd, 0xc9, 0xc9, 0x07, 0x00] \<and>
       le_value (h_compressed_size (read_local_header (emitted sample_init s4))) = 7 \<and>
       le_value (h_size (read_local_header (emitted sample_init s4))) = 5"
    using deflate_only_when_smaller [OF w4 nr d l b4 n4(1) sample_env_framed,
        unfolded Let_def a4 option.case prod.case]
    by (auto simp: n4 length_sample_hello_big copy_le16_def)

  show ?thesis
    using c1 c2 c3 c4 a3 by (auto simp: w1 w2 w3 w4)
qed

text \<open>C2, as amended: for every entry that is encoded in a build, the offset field of its
  directory record is the value of \<open>zip_offset\<close> before the call, which is the number of
  bytes written so far modulo \<open>2^32\<close>; the call emits the 30-byte header, the path and the
  payload, whose length modulo \<open>2^32\<close> is the compressed-size field; and \<open>zip_offset\<close>
  advances by the number of bytes emitted modulo \<open>2^32\<close>, so that it equals the total
  number of bytes written for this and all prior entries modulo \<open>2^32\<close>, and that total
  itself while it is below \<open>2^32\<close>.\<close>

theorem zip_offset_is_bytes_written_mod_2_32:
  assumes "write_zip_entries env es (zip_init date time heap) = Some (Finished rs s)"
    and "write_zip_entry env sha1 base filename mode s = Some (Returned r s')"
    and "r \<noteq> - 1"
    and "zlib_framed env"
  shows "let d = read_dir_header (dir_appended s s');
             data = payload base filename mode s s'
         in d_offset d = copy_le32 (zip_offset s) \<and>
            le_value (d_offset d) = unat (zip_offset s) \<and>
            le_value (d_offset d) = length (stdout s) mod 2 ^ 32 \<and>
            stdout s' = stdout s @ emitted s s' \<and>
            length (emitted s s') = 30 + length (entry_path base filename mode) + length data \<and>
            le_value (d_compressed_size d) = length data mod 2 ^ 32 \<and>
            zip_offset s' = zip_offset s + of_nat (length (emitted s s')) \<and>
            unat (zip_offset s') = (unat (zip_offset s) + length (emitted s s')) mod 2 ^ 32 \<and>
            unat (zip_offset s') = length (stdout s') mod 2 ^ 32 \<and>
            (length (stdout s') < 2 ^ 32 \<longrightarrow>
               le_value (d_offset d) = length (stdout s) \<and>
               unat (zip_offset s') = length (stdout s'))"
proof -
  let ?v = "entry_fields env sha1 mode"
  note rd = read_emitted [OF assms(2,3)]
  note pl = payload_eq [OF assms(2,3)]
  note eff = write_zip_entry_effect [OF assms(2,3)]
  note adv = zip_offset_advances [OF assms(2,3,4)]
  have before: "unat (zip_offset s) = length (stdout s) mod 2 ^ 32"
    by (rule zip_offset_tracks_output [OF assms(1,4)])
  have after: "unat (zip_offset s') = length (stdout s') mod 2 ^ 32"
    by (rule zip_offset_step [OF assms(2,4) before])
  have off: "d_offset (read_dir_header (dir_appended s s')) = copy_le32 (zip_offset s)"
    unfolding rd(2) by (simp add: fill_dirent_def)
  have plen: "length (payload base filename mode s s') = unat (v_compressed_size ?v)"
    unfolding pl by (rule entry_fields_payload_length [OF assms(4)])
  have elen: "length (emitted s s') =
      30 + length (entry_path base filename mode) + length (payload base filename mode s s')"
    unfolding plen by (rule length_emitted [OF assms(2,3,4)])
  have csz: "le_value (d_compressed_size (read_dir_header (dir_appended s s'))) =
      length (payload base filename mode s s') mod 2 ^ 32"
    unfolding rd(2) plen by (simp add: fill_dirent_def le_value_ucast_ulong)
  have step: "unat (zip_offset s') = (unat (zip_offset s) + length (emitted s s')) mod 2 ^ 32"
    unfolding adv by (rule unat_plus_of_nat)
  have v1: "le_value (d_offset (read_dir_header (dir_appended s s'))) = unat (zip_offset s)"
    unfolding off by (rule le_value_copy_le32)
  have v2: "le_value (d_offset (read_dir_header (dir_appended s s'))) =
      length (stdout s) mod 2 ^ 32"
    unfolding v1 by (rule before)
  have small: "length (stdout s') < 2 ^ 32 \<longrightarrow>
      le_value (d_offset (read_dir_header (dir_appended s s'))) = length (stdout s) \<and>
      unat (zip_offset s') = length (stdout s')"
  proof
    assume lt: "length (stdout s') < 2 ^ 32"
    then have "length (stdout s) < 2 ^ 32" unfolding eff(3) by simp
    with lt show "le_value (d_offset (read_dir_header (dir_appended s s'))) = length (stdout s) \<and>
      unat (zip_offset s') = length (stdout s')"
      unfolding v2 after by simp
  qed
  show ?thesis
    unfolding Let_def
    by (intro conjI) (fact off v1 v2 eff(3) elen csz adv step after small)+
qed

theorem zip_offset_is_bytes_written_mod_2_32_witness:
  "(case write_zip_entries (sample_env 0) [sample_big_file] sample_init of
      Some (Finished rs s) \<Rightarrow>
        (case write_zip_entry (sample_env 0) sha1_hello [0x64, 0x2f] [0x66] 0x81a4 s of
           Some (Returned r s') \<Rightarrow>
             r = 0 \<and>
             length (stdout s) = 4294967327 \<and>
             le_value (d_offset (read_dir_header (dir_appended s s'))) = 31 \<and>
             length (emitted s s') = 38 \<and>
             unat (zip_offset s') = 69 \<and>
             length (stdout s') = 4294967365
         | _ \<Rightarrow> False)
    | _ \<Rightarrow> False) \<and>
   (case write_zip_entries (sample_env 0) [] sample_init of
      Some (Finished rs s) \<Rightarrow>
        (case write_zip_entry (sample_env 0) sha1_hello [0x64, 0x2f] [0x66] 0x81a4 s of
           Some (Returned r s') \<Rightarrow>
             r = 0 \<and>
             length (stdout s) = 0 \<and>
             length (stdout s') < 2 ^ 32 \<and>
             le_value (d_offset (read_dir_header (dir_appended s s'))) = 0 \<and>
             length (emitted s s') = 38 \<and>
             unat (zip_offset s') = 38 \<and>
             length (stdout s') = 38
         | _ \<Rightarrow> False)
    | _ \<Rightarrow> False)"
  (is "?wrapped \<and> ?small")
proof
  show ?wrapped
  proof -
    have nr: "(0 :: int) \<noteq> - 1" by simp
    have "\<exists>s. write_zip_entries (sample_env 0) [sample_big_file] sample_init =
        Some (Finished (map (\<lambda>e. if S_ISDIR (e_mode e) then READ_TREE_RECURSIVE else 0)
          [sample_big_file]) s)"
      by (rule write_zip_entries_returns [where k = 1])
         (simp_all add: entry_path_file sample_modes sample_store_simps)
    then obtain s where
      run: "write_zip_entries (sample_env 0) [sample_big_file] sample_init = Some (Finished [0] s)"
      by (auto simp: sample_modes)
    then obtain s0 where
      w0: "write_zip_entry (sample_env 0) sha1_big [] [0x62] 0x81a4 sample_init =
        Some (Returned 0 s0)"
      and s0: "s0 = s"
      by (auto split: option.splits outcome.splits)
    note eff0 = write_zip_entry_effect [OF w0 nr, unfolded s0]
    have out0: "length (stdout s) = 4294967327"
      unfolding eff0(3) eff0(1)
      by (simp add: entry_path_file sample_modes sample_big_fields length_sample_big)
    have dof: "unat (zip_dir_offset s) = 47"
      unfolding eff0(4) by (simp add: entry_path_file sample_modes)
    have "\<exists>s'. write_zip_entry (sample_env 0) sha1_hello [0x64, 0x2f] [0x66] 0x81a4 s =
        Some (Returned (if S_ISDIR 0x81a4 then READ_TREE_RECURSIVE else 0) s')"
      by (rule write_zip_entry_returns)
         (simp_all add: entry_path_file sample_modes sample_store_simps dof)
    then obtain s' where
      w: "write_zip_entry (sample_env 0) sha1_hello [0x64, 0x2f] [0x66] 0x81a4 s =
        Some (Returned 0 s')"
      by (auto simp: sample_modes)
    have pl: "length (payload [0x64, 0x2f] [0x66] 0x81a4 s s') = 5"
      unfolding payload_eq [OF w nr]
      using entry_fields_reg(4) [of "0x81a4" "sample_env 0" sha1_hello sample_hello]
      by (simp add: sample_modes sample_store_simps choose_method_eq sample_hello_def)
    note c = zip_offset_is_bytes_written_mod_2_32 [OF run [unfolded sample_init_is_zip_init] w nr
        sample_env_framed, unfolded Let_def]
    have "length (stdout s) = 4294967327 \<and>
        le_value (d_offset (read_dir_header (dir_appended s s'))) = 31 \<and>
        length (emitted s s') = 38 \<and>
        unat (zip_offset s') = 69 \<and>
        length (stdout s') = 4294967365"
      using c out0 pl by (auto simp: entry_path_file sample_modes)
    then show ?thesis
      unfolding run by (simp add: w)
  qed

  show ?small
  proof -
    have nr: "(0 :: int) \<noteq> - 1" by simp
    have run: "write_zip_entries (sample_env 0) [] (zip_init 13607 24576 (\<lambda>i. 0)) =
        Some (Finished [] sample_init)"
      by (simp add: sample_init_is_zip_init [symmetric])
    have "\<exists>s'. write_zip_entry (sample_env 0) sha1_hello [0x64, 0x2f] [0x66] 0x81a4 sample_init =
        Some (Returned (if S_ISDIR 0x81a4 then READ_TREE_RECURSIVE else 0) s')"
      by (rule write_zip_entry_returns)
         (simp_all add: entry_path_file sample_modes sample_store_simps)
    then obtain s' where
      w: "write_zip_entry (sample_env 0) sha1_hello [0x64, 0x2f] [0x66] 0x81a4 sample_init =
        Some (Returned 0 s')"
      by (auto simp: sample_modes)
    have pl: "length (payload [0x64, 0x2f] [0x66] 0x81a4 sample_init s') = 5"
      unfolding payload_eq [OF w nr]
      using entry_fields_reg(4) [of "0x81a4" "sample_env 0" sha1_hello sample_hello]
      by (simp add: sample_modes sample_store_simps choose_method_eq sample_hello_def)
    note c = zip_offset_is_bytes_written_mod_2_32 [OF run w nr sample_env_framed,
        unfolded Let_def]
    have out0: "length (stdout sample_init) = 0" by simp
    have e: "length (emitted sample_init s') = 38"
      using c pl by (simp add: entry_path_file sample_modes)
    have o: "length (stdout s') = 38"
      using c e by simp
    have lt: "length (stdout s') < 2 ^ 32"
      using o by simp
    note c10 = c [THEN conjunct2, THEN conjunct2, THEN conjunct2, THEN conjunct2,
        THEN conjunct2, THEN conjunct2, THEN conjunct2, THEN conjunct2, THEN conjunct2,
        rule_format, OF lt]
    have "le_value (d_offset (read_dir_header (dir_appended sample_init s'))) = 0 \<and>
        unat (zip_offset s') = 38"
      using c10 unfolding o by simp
    with e o lt show ?thesis
      by (simp add: w)
  qed
qed

text \<open>C2 as stated fails once \<open>2^32\<close> bytes have been written: after one stored blob of
  \<open>2^32\<close> bytes under a one-byte name, 4294967327 bytes are out and \<open>zip_offset\<close> is 31.\<close>

theorem zip_offset_wraps_after_4_GiB:
  "case write_zip_entry (sample_env 0) sha1_big [] [0x62] 0x81a4 sample_init of
     Some (Returned r s') \<Rightarrow>
       r = 0 \<and>
       stdout sample_init = [] \<and> zip_offset sample_init = 0 \<and>
       length (stdout s') = 4294967327 \<and>
       unat (zip_offset s') = 31
   | _ \<Rightarrow> False"
proof -
  have nr: "(0 :: int) \<noteq> - 1" by simp
  have "\<exists>s'. write_zip_entry (sample_env 0) sha1_big [] [0x62] 0x81a4 sample_init =
      Some (Returned (if S_ISDIR 0x81a4 then READ_TREE_RECURSIVE else 0) s')"
    by (rule write_zip_entry_returns)
       (simp_all add: entry_path_file sample_modes sample_store_simps)
  then obtain s' where
    w: "write_zip_entry (sample_env 0) sha1_big [] [0x62] 0x81a4 sample_init =
      Some (Returned 0 s')"
    by (auto simp: sample_modes)
  note eff = write_zip_entry_effect [OF w nr]
  have out: "length (stdout s') = 4294967327"
    unfolding eff(3) eff(1)
    by (simp add: entry_path_file sample_modes sample_big_fields length_sample_big)
  have off: "unat (zip_offset s') = 31"
    unfolding eff(7)
    by (simp add: entry_path_file sample_modes sample_big_fields)
  show ?thesis
    using out off by (simp add: w)
qed

end
